theory Spec2Isabelle
  imports Main "HOL-Library.Log_Nat"
begin

section \<open>Values shared by the training loop and the inference proxy\<close>

text \<open>
  Python values that come out of \<^verbatim>\<open>json.loads\<close>. A dictionary is an association list
  in insertion order with distinct keys; \<open>JNull\<close> is Python's \<^verbatim>\<open>None\<close>. A float is
  represented by the rational number it denotes.
\<close>

datatype json =
    JNull
  | JBool bool
  | JInt int
  | JFloat rat
  | JString string
  | JArray "json list"
  | JObject "(string \<times> json) list"

text \<open>
  The exceptions the modelled code can raise or let through. \<open>ServiceError\<close> is any
  exception of a collaborator, with its message. \<open>OutsideModel\<close> is no exception of
  Python: it marks an input that the model of a library function does not cover.
\<close>

datatype exn =
    JSONDecodeError
  | KeyError
  | AttributeError
  | TypeError
  | ValueError
  | ServiceError string
  | OutsideModel

text \<open>\<^verbatim>\<open>d.get(key, default)\<close> on a dictionary.\<close>

definition dict_get :: "(string \<times> json) list \<Rightarrow> string \<Rightarrow> json \<Rightarrow> json" where
  "dict_get kvs k d = (case map_of kvs k of None \<Rightarrow> d | Some v \<Rightarrow> v)"

text \<open>Python truthiness of a value (\<^verbatim>\<open>if x:\<close>).\<close>

fun truthy :: "json \<Rightarrow> bool" where
  "truthy JNull = False"
| "truthy (JBool b) = b"
| "truthy (JInt n) = (n \<noteq> 0)"
| "truthy (JFloat x) = (x \<noteq> 0)"
| "truthy (JString s) = (s \<noteq> [])"
| "truthy (JArray xs) = (xs \<noteq> [])"
| "truthy (JObject kvs) = (kvs \<noteq> [])"

section \<open>tinker\_grpo: rollouts to training data\<close>

subsection \<open>CPython's floats\<close>

text \<open>
  A Python float is an IEEE 754 binary64 number: a finite value, one of the two
  infinities, or not-a-number. The two zeros are one value here; they compare equal.
\<close>

datatype pyfloat = Finite rat | PosInf | NegInf | NaN

text \<open>
  Every arithmetic operation returns the exact result rounded to the nearest binary64
  number, ties to the one with an even significand. \<open>round53 x\<close> is the rounding of a
  rational \<open>x\<close> while the exponent is not bounded from above: with \<open>e\<close> the exponent
  of \<open>x\<close> (at least -1022, where the subnormal numbers begin), it is the multiple of
  \<open>2 ^ (e - 52)\<close> nearest to \<open>x\<close>. \<open>binary64\<close> is the rounding of the format: a
  result beyond the largest finite float is an infinity.
\<close>

definition round_half_even :: "rat \<Rightarrow> int" where
  "round_half_even x =
     (let f = \<lfloor>x\<rfloor>; d = x - of_int f
      in if d < 1 / 2 then f else if 1 / 2 < d then f + 1 else if even f then f else f + 1)"

text \<open>The integer \<open>e\<close> with \<open>2 ^ e \<le> \<bar>x\<bar> < 2 ^ (e + 1)\<close>, for \<open>x \<noteq> 0\<close>.\<close>

definition ilog2 :: "rat \<Rightarrow> int" where
  "ilog2 x =
     (let (p, q) = quotient_of \<bar>x\<bar>;
          d = int (floorlog 2 (nat p)) - int (floorlog 2 (nat q))
      in if 2 powi d \<le> \<bar>x\<bar> then d else d - 1)"

definition round53 :: "rat \<Rightarrow> rat" where
  "round53 x =
     (if x = 0 then 0
      else let e = max (ilog2 x) (- 1022); u = 2 powi (e - 52)
           in of_int (round_half_even (x / u)) * u)"

definition max_float :: rat where
  "max_float = (2 - 2 powi (- 52)) * 2 powi 1023"

definition binary64 :: "rat \<Rightarrow> pyfloat" where
  "binary64 x =
     (let y = round53 x
      in if max_float < y then PosInf else if y < - max_float then NegInf else Finite y)"

text \<open>Addition, negation, subtraction, and division by a positive integer.\<close>

fun fadd :: "pyfloat \<Rightarrow> pyfloat \<Rightarrow> pyfloat" where
  "fadd (Finite a) (Finite b) = binary64 (a + b)"
| "fadd NaN y = NaN"
| "fadd x NaN = NaN"
| "fadd PosInf NegInf = NaN"
| "fadd NegInf PosInf = NaN"
| "fadd PosInf y = PosInf"
| "fadd x PosInf = PosInf"
| "fadd NegInf y = NegInf"
| "fadd x NegInf = NegInf"

fun fneg :: "pyfloat \<Rightarrow> pyfloat" where
  "fneg (Finite a) = Finite (- a)"
| "fneg PosInf = NegInf"
| "fneg NegInf = PosInf"
| "fneg NaN = NaN"

definition fsub :: "pyfloat \<Rightarrow> pyfloat \<Rightarrow> pyfloat" where
  "fsub x y = fadd x (fneg y)"

fun fdiv_nat :: "pyfloat \<Rightarrow> nat \<Rightarrow> pyfloat" where
  "fdiv_nat (Finite a) n = binary64 (a / of_nat n)"
| "fdiv_nat x n = x"

text \<open>\<^verbatim>\<open>a == 0.0\<close>\<close>

fun is_zero :: "pyfloat \<Rightarrow> bool" where
  "is_zero (Finite a) = (a = 0)"
| "is_zero x = False"

subsection \<open>Advantages\<close>

text \<open>
  A rollout as \<^verbatim>\<open>collect_rollouts\<close> builds it: a dictionary with the three keys
  \<^verbatim>\<open>trajectory_json\<close>, \<^verbatim>\<open>reward\<close> and \<^verbatim>\<open>task_id\<close>.
\<close>

record rollout =
  trajectory_json :: string
  reward :: pyfloat
  task_id :: string

text \<open>
  \<^verbatim>\<open>sum(rewards)\<close> adds from the left, starting at 0, and rounds after each addition
  (CPython up to version 3.11).
\<close>

definition py_sum :: "pyfloat list \<Rightarrow> pyfloat" where
  "py_sum xs = foldl fadd (Finite 0) xs"

text \<open>
  \<^verbatim>\<open>mean_reward = sum(rewards) / len(rewards) if rewards else 0.0\<close>; the length is
  below \<open>2 ^ 53\<close> and so a float.
\<close>

definition mean_reward :: "pyfloat list \<Rightarrow> pyfloat" where
  "mean_reward rewards =
     (if rewards \<noteq> [] then fdiv_nat (py_sum rewards) (length rewards) else Finite 0)"

text \<open>\<^verbatim>\<open>advantages = [r - mean_reward for r in rewards]\<close>\<close>

definition advantages :: "pyfloat list \<Rightarrow> pyfloat list" where
  "advantages rewards = map (\<lambda>r. fsub r (mean_reward rewards)) rewards"

subsection \<open>From rollout groups to datums\<close>

text \<open>
  A \<^verbatim>\<open>tinker.Datum\<close>: the model input, and the two loss-function inputs
  \<^verbatim>\<open>target_tokens\<close> and \<^verbatim>\<open>weights\<close>, as the lists the code hands over.
\<close>

record datum =
  model_input :: "int list"
  target_tokens :: "int list"
  weights :: "pyfloat list"

text \<open>
  The tokenizer is an external object: \<open>encode text add_special_tokens\<close> and the
  end-of-sequence token id.
\<close>

record tokenizer =
  encode :: "json \<Rightarrow> bool \<Rightarrow> exn + int list"
  eos_token_id :: int

text \<open>
  The body of the inner loop for one rollout and its advantage: \<open>Inr None\<close> is
  \<^verbatim>\<open>continue\<close>, \<open>Inl e\<close> an exception that leaves the function. \<open>fmt\<close> is the text an
  f-string inserts for a value and \<open>loads\<close> is \<^verbatim>\<open>json.loads\<close>; of its exceptions
  \<^verbatim>\<open>JSONDecodeError\<close> and \<^verbatim>\<open>KeyError\<close> are caught.
\<close>

definition build_datum ::
  "tokenizer \<Rightarrow> (json \<Rightarrow> string) \<Rightarrow> (string \<Rightarrow> exn + json) \<Rightarrow> rollout \<Rightarrow> pyfloat
     \<Rightarrow> exn + datum option" where
  "build_datum tok fmt loads rollout advantage =
     (case loads (trajectory_json rollout) of
        Inl e \<Rightarrow> (if e = JSONDecodeError \<or> e = KeyError then Inr None else Inl e)
      | Inr (JObject traj) \<Rightarrow>
          (let problem_statement = dict_get traj ''problem_statement'' (JString '''');
               output_patch = dict_get traj ''output_patch'' (JString '''');
               prompt_text = ''Fix the following issue:'' @ [CHR 0x0A] @ fmt problem_statement;
               completion_text = (if truthy output_patch then output_patch else JString '''')
           in if \<not> truthy completion_text then Inr None
              else
                (case encode tok (JString prompt_text) True of
                   Inl e \<Rightarrow> Inl e
                 | Inr prompt_tokens \<Rightarrow>
                     (case encode tok completion_text False of
                        Inl e \<Rightarrow> Inl e
                      | Inr completion_tokens \<Rightarrow>
                          (let full_tokens = prompt_tokens @ completion_tokens;
                               ws = replicate (length prompt_tokens) (Finite 0)
                                      @ replicate (length completion_tokens) advantage;
                               targets = drop 1 full_tokens @ [eos_token_id tok]
                           in Inr (Some \<lparr>model_input = full_tokens,
                                          target_tokens = targets,
                                          weights = ws\<rparr>)))))
      | Inr _ \<Rightarrow> Inl AttributeError)"

text \<open>\<^verbatim>\<open>for rollout, advantage in zip(group, advantages): ...\<close>\<close>

fun group_data ::
  "tokenizer \<Rightarrow> (json \<Rightarrow> string) \<Rightarrow> (string \<Rightarrow> exn + json) \<Rightarrow> (rollout \<times> pyfloat) list
     \<Rightarrow> exn + datum list" where
  "group_data tok fmt loads [] = Inr []"
| "group_data tok fmt loads ((rollout, advantage) # rest) =
     (case build_datum tok fmt loads rollout advantage of
        Inl e \<Rightarrow> Inl e
      | Inr d \<Rightarrow>
          (case group_data tok fmt loads rest of
             Inl e \<Rightarrow> Inl e
           | Inr ds \<Rightarrow> Inr ((case d of None \<Rightarrow> [] | Some x \<Rightarrow> [x]) @ ds)))"

text \<open>What one group appends to \<^verbatim>\<open>data\<close>.\<close>

definition one_group ::
  "tokenizer \<Rightarrow> (json \<Rightarrow> string) \<Rightarrow> (string \<Rightarrow> exn + json) \<Rightarrow> rollout list
     \<Rightarrow> exn + datum list" where
  "one_group tok fmt loads grp =
     (if grp = [] then Inr []
      else let advs = advantages (map reward grp)
           in if list_all is_zero advs then Inr []
              else group_data tok fmt loads (zip grp advs))"

fun trajectories_to_training_data ::
  "tokenizer \<Rightarrow> (json \<Rightarrow> string) \<Rightarrow> (string \<Rightarrow> exn + json)
     \<Rightarrow> rollout list list \<Rightarrow> exn + datum list" where
  "trajectories_to_training_data tok fmt loads [] = Inr []"
| "trajectories_to_training_data tok fmt loads (grp # rest) =
     (case one_group tok fmt loads grp of
        Inl e \<Rightarrow> Inl e
      | Inr ds \<Rightarrow>
          (case trajectories_to_training_data tok fmt loads rest of
             Inl e \<Rightarrow> Inl e
           | Inr ds' \<Rightarrow> Inr (ds @ ds')))"

subsection \<open>train\_step\<close>

record adam_params =
  learning_rate :: rat
  beta1 :: rat
  beta2 :: rat
  eps :: rat

text \<open>
  The training client is a remote service. A call either raises or returns; the model
  records the calls a step issues, in order. \<open>forward_backward\<close> returns the
  \<^verbatim>\<open>metrics\<close> dictionary of its result.
\<close>

datatype remote_call =
    ForwardBackward "datum list" string
  | OptimStep adam_params

record training_client =
  forward_backward :: "datum list \<Rightarrow> string \<Rightarrow> exn + (string \<times> rat) list"
  optim_step :: "adam_params \<Rightarrow> exn + unit"

record step_metrics =
  loss :: rat
  num_samples :: nat

definition train_step ::
  "training_client \<Rightarrow> datum list \<Rightarrow> rat \<Rightarrow> (exn + step_metrics) \<times> remote_call list" where
  "train_step client data lr =
     (if data = [] then (Inr \<lparr>loss = 0, num_samples = 0\<rparr>, [])
      else
        (let fb = ForwardBackward data ''importance_sampling''
         in case forward_backward client data ''importance_sampling'' of
              Inl e \<Rightarrow> (Inl e, [fb])
            | Inr metrics \<Rightarrow>
                (let adam = \<lparr>learning_rate = lr, beta1 = 9 / 10, beta2 = 95 / 100,
                              eps = 1 / 100000000\<rparr>
                 in case optim_step client adam of
                      Inl e \<Rightarrow> (Inl e, [fb, OptimStep adam])
                    | Inr _ \<Rightarrow>
                        (Inr \<lparr>loss = (if metrics \<noteq> []
                                       then (case map_of metrics ''loss'' of
                                               None \<Rightarrow> 0 | Some l \<Rightarrow> l)
                                       else 0),
                              num_samples = length data\<rparr>,
                         [fb, OptimStep adam]))))"

text \<open>
  One step of the loop in \<^verbatim>\<open>async_main\<close>, from the rollout groups on: build the
  training data, then train on it.
\<close>

definition step_from_groups ::
  "tokenizer \<Rightarrow> (json \<Rightarrow> string) \<Rightarrow> (string \<Rightarrow> exn + json)
     \<Rightarrow> training_client \<Rightarrow> rat \<Rightarrow> rollout list list
     \<Rightarrow> (exn + step_metrics) \<times> remote_call list" where
  "step_from_groups tok fmt loads client lr rollout_groups =
     (case trajectories_to_training_data tok fmt loads rollout_groups of
        Inl e \<Rightarrow> (Inl e, [])
      | Inr training_data \<Rightarrow> train_step client training_data lr)"

section \<open>tinker\_proxy: tool calls in the model's output\<close>

text \<open>
  Text is a list of characters with code points below 256. \<open>is_space\<close> is the
  class \<^verbatim>\<open>\s\<close> of a Python 3 pattern on \<^verbatim>\<open>str\<close>, which is also what
  \<^verbatim>\<open>str.strip()\<close> removes: tab to carriage return, the four separators 28 to 31,
  space, next-line and no-break space.
\<close>

definition is_space :: "char \<Rightarrow> bool" where
  "is_space c = ((of_char c :: nat) \<in> set [9, 10, 11, 12, 13, 28, 29, 30, 31, 32, 133, 160])"

definition open_tag :: string where
  "open_tag = ''<tool_call>''"

definition close_tag :: string where
  "close_tag = ''</tool_call>''"

definition startswith :: "string \<Rightarrow> string \<Rightarrow> bool" where
  "startswith p s = (take (length p) s = p)"

text \<open>
  \<^verbatim>\<open>_TOOL_CALL_RE = <tool_call>\s*(\{.*?\})\s*</tool_call>\<close> with \<^verbatim>\<open>re.DOTALL\<close>.

  \<open>lazy_body acc s\<close> continues the group after its opening brace: \<open>acc\<close> holds the
  group so far, reversed. The lazy \<^verbatim>\<open>.*?\<close> stops at the first closing brace after
  which white space and the closing tag follow. The result is the group and the text after
  the match.
\<close>

fun lazy_body :: "string \<Rightarrow> string \<Rightarrow> (string \<times> string) option" where
  "lazy_body acc [] = None"
| "lazy_body acc (c # cs) =
     (if c = CHR ''}'' \<and> startswith close_tag (dropWhile is_space cs)
      then Some (rev (c # acc), drop (length close_tag) (dropWhile is_space cs))
      else lazy_body (c # acc) cs)"

text \<open>A match of the pattern that starts at the first character of the text.\<close>

definition match_at :: "string \<Rightarrow> (string \<times> string) option" where
  "match_at s =
     (if startswith open_tag s
      then (case dropWhile is_space (drop (length open_tag) s) of
              [] \<Rightarrow> None
            | c # cs \<Rightarrow> if c = CHR ''{'' then lazy_body [c] cs else None)
      else None)"

text \<open>
  \<^verbatim>\<open>[m.group(1) for m in _TOOL_CALL_RE.finditer(text)]\<close>: the matches from left to
  right, without overlap. \<open>skip\<close> counts the characters of the last match that are still
  ahead; no match starts there.
\<close>

fun finditer :: "nat \<Rightarrow> string \<Rightarrow> string list" where
  "finditer skip [] = []"
| "finditer skip (c # cs) =
     (if 0 < skip then finditer (skip - 1) cs
      else (case match_at (c # cs) of
              None \<Rightarrow> finditer 0 cs
            | Some (body, rest) \<Rightarrow> body # finditer (length cs - length rest) cs))"

text \<open>A tool call in OpenAI's format.\<close>

record function_call =
  fn_name :: json
  fn_arguments :: string

record tool_call =
  call_id :: string
  call_type :: string
  call_function :: function_call

text \<open>
  The loop of \<^verbatim>\<open>_parse_tool_calls\<close> over the groups of the matches. \<open>loads\<close> is
  \<^verbatim>\<open>json.loads\<close> and \<open>dumps\<close> is \<^verbatim>\<open>json.dumps\<close>; only
  \<^verbatim>\<open>JSONDecodeError\<close> is caught. \<open>uuid k\<close> is the hexadecimal text of the
  \<open>k\<close>-th identifier \<^verbatim>\<open>uuid.uuid4()\<close> hands out during the request.
\<close>

text \<open>
  \<^verbatim>\<open>if not isinstance(arguments, str): arguments = json.dumps(arguments)\<close>
\<close>

definition arguments_string :: "(json \<Rightarrow> string) \<Rightarrow> json \<Rightarrow> string" where
  "arguments_string dumps arguments =
     (case arguments of JString s \<Rightarrow> s | _ \<Rightarrow> dumps arguments)"

fun tool_calls_of ::
  "(string \<Rightarrow> exn + json) \<Rightarrow> (json \<Rightarrow> string) \<Rightarrow> (nat \<Rightarrow> string) \<Rightarrow> nat \<Rightarrow> string list
     \<Rightarrow> exn + tool_call list" where
  "tool_calls_of loads dumps uuid k [] = Inr []"
| "tool_calls_of loads dumps uuid k (b # bs) =
     (case loads b of
        Inl e \<Rightarrow>
          (if e = JSONDecodeError then tool_calls_of loads dumps uuid k bs else Inl e)
      | Inr (JObject call) \<Rightarrow>
          (let arguments = dict_get call ''arguments'' (JObject []);
               tc = \<lparr>call_id = ''call_'' @ take 8 (uuid k),
                      call_type = ''function'',
                      call_function = \<lparr>fn_name = dict_get call ''name'' (JString ''''),
                                         fn_arguments = arguments_string dumps arguments\<rparr>\<rparr>
           in case tool_calls_of loads dumps uuid (Suc k) bs of
                Inl e \<Rightarrow> Inl e
              | Inr tcs \<Rightarrow> Inr (tc # tcs))
      | Inr _ \<Rightarrow> Inl AttributeError)"

definition parse_tool_calls ::
  "(string \<Rightarrow> exn + json) \<Rightarrow> (json \<Rightarrow> string) \<Rightarrow> (nat \<Rightarrow> string) \<Rightarrow> string
     \<Rightarrow> exn + tool_call list" where
  "parse_tool_calls loads dumps uuid text = tool_calls_of loads dumps uuid 0 (finditer 0 text)"

section \<open>tinker\_proxy: chat completions\<close>

text \<open>
  The server's collaborators: the tokenizer's chat template (with the \<^verbatim>\<open>tools\<close>
  keyword when it is passed), \<^verbatim>\<open>encode\<close> and \<^verbatim>\<open>decode\<close>, the sampling client
  (building the sampling parameters and drawing one sample; the result is the tokens of
  the first sequence), the identifiers and the clock. Each of them returns or raises.
\<close>

record sampling_params =
  max_tokens :: json
  temperature :: json
  stop :: json

record server =
  model_name :: string
  apply_chat_template :: "json \<Rightarrow> json option \<Rightarrow> exn + string"
  tok_encode :: "string \<Rightarrow> exn + int list"
  tok_decode :: "int list \<Rightarrow> exn + string"
  sample :: "int list \<Rightarrow> sampling_params \<Rightarrow> exn + int list"
  uuid4_hex :: "nat \<Rightarrow> string"
  time_now :: int

text \<open>The number a Python value compares as; \<open>None\<close> where \<^verbatim>\<open>>\<close> raises.\<close>

fun num_of :: "json \<Rightarrow> rat option" where
  "num_of (JInt n) = Some (of_int n)"
| "num_of (JFloat x) = Some x"
| "num_of (JBool b) = Some (if b then 1 else 0)"
| "num_of _ = None"

text \<open>The float that the literal \<^verbatim>\<open>0.01\<close> denotes.\<close>

definition min_temperature :: rat where
  "min_temperature = round53 (1 / 100)"

text \<open>
  \<^verbatim>\<open>max(temperature, 0.01)\<close>: the second argument is returned only where it is
  greater than the first.
\<close>

definition clamp_temperature :: "json \<Rightarrow> exn + json" where
  "clamp_temperature t =
     (case num_of t of
        None \<Rightarrow> Inl TypeError
      | Some x \<Rightarrow> Inr (if min_temperature > x then JFloat min_temperature else t))"

text \<open>The arguments of the call to \<^verbatim>\<open>sampling_client.sample\<close>.\<close>

definition sampling_request ::
  "server \<Rightarrow> json \<Rightarrow> json \<Rightarrow> json \<Rightarrow> json \<Rightarrow> json \<Rightarrow> exn + int list \<times> sampling_params" where
  "sampling_request srv messages temp max_toks stop_seqs tools =
     (case apply_chat_template srv messages (if truthy tools then Some tools else None) of
        Inl e \<Rightarrow> Inl e
      | Inr prompt_text \<Rightarrow>
          (case tok_encode srv prompt_text of
             Inl e \<Rightarrow> Inl e
           | Inr prompt_tokens \<Rightarrow>
               (case clamp_temperature temp of
                  Inl e \<Rightarrow> Inl e
                | Inr t \<Rightarrow>
                    Inr (prompt_tokens,
                         \<lparr>max_tokens = max_toks, temperature = t,
                          stop = (if truthy stop_seqs then stop_seqs else JArray [])\<rparr>))))"

text \<open>\<^verbatim>\<open>re.split(r"<tool_call>", text, maxsplit=1)[0]\<close>\<close>

fun before_open_tag :: "string \<Rightarrow> string" where
  "before_open_tag [] = []"
| "before_open_tag (c # cs) =
     (if startswith open_tag (c # cs) then [] else c # before_open_tag cs)"

text \<open>\<^verbatim>\<open>str.strip()\<close>\<close>

definition strip :: "string \<Rightarrow> string" where
  "strip s = rev (dropWhile is_space (rev (dropWhile is_space s)))"

record message =
  role :: string
  content :: "string option"
  tool_calls :: "tool_call list option"

record usage =
  prompt_tokens :: nat
  completion_tokens :: nat
  total_tokens :: nat

record completion =
  completion_id :: string
  object :: string
  created :: int
  model :: string
  choice_index :: nat
  choice_message :: message
  finish_reason :: string
  token_usage :: usage

text \<open>The message and the finish reason, from the decoded text and the tool calls.\<close>

definition completion_message :: "string \<Rightarrow> tool_call list \<Rightarrow> message \<times> string" where
  "completion_message completion_text tcs =
     (if tcs \<noteq> []
      then (let c = strip (before_open_tag completion_text)
            in (\<lparr>role = ''assistant'',
                  content = (if c \<noteq> [] then Some c else None),
                  tool_calls = Some tcs\<rparr>,
                ''tool_calls''))
      else (\<lparr>role = ''assistant'', content = Some completion_text, tool_calls = None\<rparr>,
            ''stop''))"

definition generate ::
  "server \<Rightarrow> (string \<Rightarrow> exn + json) \<Rightarrow> (json \<Rightarrow> string)
     \<Rightarrow> json \<Rightarrow> json \<Rightarrow> json \<Rightarrow> json \<Rightarrow> json \<Rightarrow> exn + completion" where
  "generate srv loads dumps messages temp max_toks stop_seqs tools =
     (case sampling_request srv messages temp max_toks stop_seqs tools of
        Inl e \<Rightarrow> Inl e
      | Inr (prompt_toks, params) \<Rightarrow>
          (case sample srv prompt_toks params of
             Inl e \<Rightarrow> Inl e
           | Inr output_toks \<Rightarrow>
               (case tok_decode srv output_toks of
                  Inl e \<Rightarrow> Inl e
                | Inr completion_text \<Rightarrow>
                    (case (if truthy tools
                           then parse_tool_calls loads dumps (uuid4_hex srv) completion_text
                           else Inr []) of
                       Inl e \<Rightarrow> Inl e
                     | Inr tcs \<Rightarrow>
                         (let (msg, reason) = completion_message completion_text tcs
                          in Inr \<lparr>completion_id =
                                     ''chatcmpl-'' @ take 8 (uuid4_hex srv (length tcs)),
                                   object = ''chat.completion'',
                                   created = time_now srv,
                                   model = model_name srv,
                                   choice_index = 0,
                                   choice_message = msg,
                                   finish_reason = reason,
                                   token_usage =
                                     \<lparr>prompt_tokens = length prompt_toks,
                                      completion_tokens = length output_toks,
                                      total_tokens = length prompt_toks
                                                       + length output_toks\<rparr>\<rparr>)))))"

section \<open>tinker\_proxy: the HTTP handler\<close>

text \<open>
  \<^verbatim>\<open>int(s)\<close> on a string: white space around, a sign, then decimal digits, where
  single underscores may stand between digits.
\<close>

definition is_digit :: "char \<Rightarrow> bool" where
  "is_digit c = (48 \<le> (of_char c :: nat) \<and> (of_char c :: nat) \<le> 57)"

definition digit_value :: "char \<Rightarrow> int" where
  "digit_value c = int (of_char c) - 48"

fun digits_value :: "int \<Rightarrow> string \<Rightarrow> int option" where
  "digits_value acc [] = Some acc"
| "digits_value acc (c # cs) =
     (if is_digit c then digits_value (acc * 10 + digit_value c) cs
      else if c = CHR ''_'' \<and> cs \<noteq> [] \<and> is_digit (hd cs) then digits_value acc cs
      else None)"

definition py_int :: "string \<Rightarrow> int option" where
  "py_int s =
     (case strip s of
        [] \<Rightarrow> None
      | c # cs \<Rightarrow>
          (let (neg, ds) = (if c = CHR ''-'' then (True, cs)
                            else if c = CHR ''+'' then (False, cs) else (False, c # cs))
           in if ds \<noteq> [] \<and> is_digit (hd ds)
              then map_option (\<lambda>n. if neg then - n else n) (digits_value 0 ds)
              else None))"

text \<open>
  \<^verbatim>\<open>rfile.read(n)\<close> on the bytes that arrive before the end of the stream. The stream
  is a buffered reader: it reads to the end for -1 and raises \<^verbatim>\<open>ValueError\<close> for a
  smaller length.
\<close>

definition rfile_read :: "string \<Rightarrow> int \<Rightarrow> exn + string" where
  "rfile_read rfile n =
     (if n < - 1 then Inl ValueError
      else if n = - 1 then Inr rfile
      else Inr (take (nat n) rfile))"

text \<open>
  What a request ends in: a response that was written, or an exception that leaves
  \<^verbatim>\<open>do_POST\<close>. The body of a response is the completion, the error object
  \<^verbatim>\<open>{"error": str(e)}\<close>, or nothing. Writing to the socket is taken to succeed.
\<close>

datatype response_body = Completion completion | ErrorBody exn | NoBody

datatype outcome = Response nat response_body | Raised exn

definition do_POST ::
  "server \<Rightarrow> (string \<Rightarrow> exn + json) \<Rightarrow> (json \<Rightarrow> string)
     \<Rightarrow> string \<Rightarrow> (string \<rightharpoonup> string) \<Rightarrow> string \<Rightarrow> outcome" where
  "do_POST srv loads dumps path headers rfile =
     (if path = ''/v1/chat/completions'' \<or> path = ''/chat/completions''
      then (case headers ''Content-Length'' of
              None \<Rightarrow> Raised TypeError
            | Some h \<Rightarrow>
                (case py_int h of
                   None \<Rightarrow> Raised ValueError
                 | Some content_length \<Rightarrow>
                     (case rfile_read rfile content_length of
                        Inl e \<Rightarrow> Raised e
                      | Inr raw \<Rightarrow>
                          (case loads raw of
                             Inl e \<Rightarrow> Raised e
                           | Inr (JObject body) \<Rightarrow>
                               (case generate srv loads dumps
                                       (dict_get body ''messages'' (JArray []))
                                       (dict_get body ''temperature'' (JFloat 0))
                                       (dict_get body ''max_tokens'' (JInt 4096))
                                       (dict_get body ''stop'' JNull)
                                       (dict_get body ''tools'' JNull) of
                                  Inl e \<Rightarrow> Response 500 (ErrorBody e)
                                | Inr result \<Rightarrow> Response 200 (Completion result))
                           | Inr _ \<Rightarrow> Response 500 (ErrorBody AttributeError)))))
      else Response 404 NoBody)"

section \<open>A model of the json module\<close>

text \<open>
  \<^verbatim>\<open>json.loads\<close> and \<^verbatim>\<open>json.dumps\<close> belong to Python's library. The functions
  of the repository take them as parameters; this section gives the instance used to run
  them on concrete texts. It covers JSON texts whose numbers are integers and whose
  escapes name code points below 256. On a text outside this fragment (a number with a
  fraction or an exponent, \<^verbatim>\<open>NaN\<close>, \<^verbatim>\<open>Infinity\<close>, a larger code point) the decoder
  answers \<open>NotModelled\<close>, which is not an exception of Python.
\<close>

definition is_json_ws :: "char \<Rightarrow> bool" where
  "is_json_ws c = (c = CHR '' '' \<or> c = CHR 0x09 \<or> c = CHR 0x0A \<or> c = CHR 0x0D)"

definition skip_ws :: "string \<Rightarrow> string" where
  "skip_ws s = dropWhile is_json_ws s"

definition hex_value :: "char \<Rightarrow> nat option" where
  "hex_value c =
     (let n = (of_char c :: nat)
      in if 48 \<le> n \<and> n \<le> 57 then Some (n - 48)
         else if 97 \<le> n \<and> n \<le> 102 then Some (n - 87)
         else if 65 \<le> n \<and> n \<le> 70 then Some (n - 55)
         else None)"

definition hex4 :: "char \<Rightarrow> char \<Rightarrow> char \<Rightarrow> char \<Rightarrow> nat option" where
  "hex4 a b c d =
     (case (hex_value a, hex_value b, hex_value c, hex_value d) of
        (Some w, Some x, Some y, Some z) \<Rightarrow> Some (((w * 16 + x) * 16 + y) * 16 + z)
      | _ \<Rightarrow> None)"

definition unescape :: "char \<Rightarrow> char option" where
  "unescape e =
     (if e = CHR 0x22 then Some (CHR 0x22)
      else if e = CHR 0x5C then Some (CHR 0x5C)
      else if e = CHR ''/'' then Some (CHR ''/'')
      else if e = CHR ''b'' then Some (CHR 0x08)
      else if e = CHR ''f'' then Some (CHR 0x0C)
      else if e = CHR ''n'' then Some (CHR 0x0A)
      else if e = CHR ''r'' then Some (CHR 0x0D)
      else if e = CHR ''t'' then Some (CHR 0x09)
      else None)"

datatype decode_error = DecodeError | NotModelled | OutOfFuel

text \<open>A string after its opening quote; \<open>acc\<close> is the decoded text so far, reversed.\<close>

fun scan_string :: "string \<Rightarrow> string \<Rightarrow> decode_error + string \<times> string" where
  "scan_string acc [] = Inl DecodeError"
| "scan_string acc [c] =
     (if c = CHR 0x22 then Inr (rev acc, [])
      else if c = CHR 0x5C \<or> (of_char c :: nat) < 32 then Inl DecodeError
      else scan_string (c # acc) [])"
| "scan_string acc (c # e # es) =
     (if c = CHR 0x22 then Inr (rev acc, e # es)
      else if c = CHR 0x5C then
        (if e = CHR ''u'' then
           (case es of
              h1 # h2 # h3 # h4 # rest \<Rightarrow>
                (case hex4 h1 h2 h3 h4 of
                   None \<Rightarrow> Inl DecodeError
                 | Some n \<Rightarrow> if n < 256 then scan_string (char_of n # acc) rest
                             else Inl NotModelled)
            | _ \<Rightarrow> Inl DecodeError)
         else (case unescape e of
                 None \<Rightarrow> Inl DecodeError
               | Some ch \<Rightarrow> scan_string (ch # acc) es))
      else if (of_char c :: nat) < 32 then Inl DecodeError
      else scan_string (c # acc) (e # es))"

text \<open>
  A number at the start of the text: an optional minus sign, then a single zero or a
  digit from 1 to 9 followed by digits. A fraction or an exponent after it makes the
  number a float.
\<close>

definition float_follows :: "string \<Rightarrow> bool" where
  "float_follows rest =
     (case rest of
        [] \<Rightarrow> False
      | d # r \<Rightarrow>
          (d = CHR ''.'' \<and> r \<noteq> [] \<and> is_digit (hd r))
        \<or> ((d = CHR ''e'' \<or> d = CHR ''E'') \<and> r \<noteq> []
            \<and> (is_digit (hd r)
               \<or> ((hd r = CHR ''+'' \<or> hd r = CHR ''-'')
                   \<and> tl r \<noteq> [] \<and> is_digit (hd (tl r))))))"

definition scan_digits :: "bool \<Rightarrow> string \<Rightarrow> decode_error + json \<times> string" where
  "scan_digits neg s1 =
     (case s1 of
        [] \<Rightarrow> Inl DecodeError
      | c # cs \<Rightarrow>
          if \<not> is_digit c then
            (if startswith ''Infinity'' s1 \<or> (\<not> neg \<and> startswith ''NaN'' s1)
             then Inl NotModelled else Inl DecodeError)
          else
            (let ds = (if c = CHR ''0'' then [c] else c # takeWhile is_digit cs);
                 rest = drop (length ds) s1
             in if float_follows rest then Inl NotModelled
                else (case digits_value 0 ds of
                        None \<Rightarrow> Inl DecodeError
                      | Some n \<Rightarrow> Inr (JInt (if neg then - n else n), rest))))"

definition scan_number :: "string \<Rightarrow> decode_error + json \<times> string" where
  "scan_number s =
     (if s \<noteq> [] \<and> hd s = CHR ''-'' then scan_digits True (tl s) else scan_digits False s)"

text \<open>
  The scanner. Each call takes one unit of fuel; twice the length of the text, and one
  more, is enough fuel (\<open>json_loads_fuel\<close> below). \<open>scan_members\<close> and
  \<open>scan_elements\<close> stand at the start of the next member or element; a repeated key
  keeps its place and takes the new value, as in a Python dictionary.
\<close>

fun update_key :: "string \<Rightarrow> json \<Rightarrow> (string \<times> json) list \<Rightarrow> (string \<times> json) list" where
  "update_key k v [] = [(k, v)]"
| "update_key k v (p # ps) = (if fst p = k then (k, v) # ps else p # update_key k v ps)"

fun scan_once :: "nat \<Rightarrow> string \<Rightarrow> decode_error + json \<times> string"
and scan_members :: "nat \<Rightarrow> (string \<times> json) list \<Rightarrow> string \<Rightarrow> decode_error + json \<times> string"
and scan_elements :: "nat \<Rightarrow> json list \<Rightarrow> string \<Rightarrow> decode_error + json \<times> string" where
  "scan_once 0 s = Inl OutOfFuel"
| "scan_once (Suc n) [] = Inl DecodeError"
| "scan_once (Suc n) (c # cs) =
     (if c = CHR 0x22 then
        (case scan_string [] cs of
           Inl e \<Rightarrow> Inl e
         | Inr (str, rest) \<Rightarrow> Inr (JString str, rest))
      else if c = CHR ''{'' then
        (let r = skip_ws cs
         in if r \<noteq> [] \<and> hd r = CHR ''}'' then Inr (JObject [], tl r)
            else scan_members n [] r)
      else if c = CHR ''['' then
        (let r = skip_ws cs
         in if r \<noteq> [] \<and> hd r = CHR '']'' then Inr (JArray [], tl r)
            else scan_elements n [] r)
      else if startswith ''null'' (c # cs) then Inr (JNull, drop 4 (c # cs))
      else if startswith ''true'' (c # cs) then Inr (JBool True, drop 4 (c # cs))
      else if startswith ''false'' (c # cs) then Inr (JBool False, drop 5 (c # cs))
      else scan_number (c # cs))"
| "scan_members 0 acc s = Inl OutOfFuel"
| "scan_members (Suc n) acc [] = Inl DecodeError"
| "scan_members (Suc n) acc (c # cs) =
     (if c \<noteq> CHR 0x22 then Inl DecodeError
      else (case scan_string [] cs of
              Inl e \<Rightarrow> Inl e
            | Inr (key, r1) \<Rightarrow>
                (let r2 = skip_ws r1
                 in if r2 = [] \<or> hd r2 \<noteq> CHR '':'' then Inl DecodeError
                    else (case scan_once n (skip_ws (tl r2)) of
                            Inl e \<Rightarrow> Inl e
                          | Inr (v, r3) \<Rightarrow>
                              (let r4 = skip_ws r3; acc' = update_key key v acc
                               in if r4 = [] then Inl DecodeError
                                  else if hd r4 = CHR ''}'' then Inr (JObject acc', tl r4)
                                  else if hd r4 = CHR '','' then
                                    scan_members n acc' (skip_ws (tl r4))
                                  else Inl DecodeError)))))"
| "scan_elements 0 acc s = Inl OutOfFuel"
| "scan_elements (Suc n) acc s =
     (case scan_once n s of
        Inl e \<Rightarrow> Inl e
      | Inr (v, r1) \<Rightarrow>
          (let r2 = skip_ws r1
           in if r2 = [] then Inl DecodeError
              else if hd r2 = CHR '']'' then Inr (JArray (acc @ [v]), tl r2)
              else if hd r2 = CHR '','' then scan_elements n (acc @ [v]) (skip_ws (tl r2))
              else Inl DecodeError))"

text \<open>
  A scanner makes progress on a text when it does not run out of fuel and, where it
  returns a value, leaves less text than it was given.
\<close>

definition progress :: "string \<Rightarrow> decode_error + 'a \<times> string \<Rightarrow> bool" where
  "progress s res = (case res of Inl e \<Rightarrow> e \<noteq> OutOfFuel | Inr (v, r) \<Rightarrow> length r < length s)"

text \<open>
  \<^verbatim>\<open>json.loads(s)\<close>: white space, one value, white space, and nothing after it.
\<close>

definition json_loads :: "string \<Rightarrow> exn + json" where
  "json_loads s =
     (case scan_once (Suc (2 * length s)) (skip_ws s) of
        Inl DecodeError \<Rightarrow> Inl JSONDecodeError
      | Inl NotModelled \<Rightarrow> Inl OutsideModel
      | Inl OutOfFuel \<Rightarrow> Inl OutsideModel
      | Inr (v, rest) \<Rightarrow> if skip_ws rest = [] then Inr v else Inl JSONDecodeError)"

text \<open>Decimal digits of a natural number and of an integer.\<close>

function digits_of :: "nat \<Rightarrow> string" where
  "digits_of n =
     (if n < 10 then [char_of (48 + n)]
      else digits_of (n div 10) @ [char_of (48 + n mod 10)])"
  by pat_completeness auto
termination
  by (relation "measure (\<lambda>n. n)") auto

definition show_int :: "int \<Rightarrow> string" where
  "show_int i = (if i < 0 then CHR ''-'' # digits_of (nat (- i)) else digits_of (nat i))"

definition hex_digit :: "nat \<Rightarrow> char" where
  "hex_digit n = (if n < 10 then char_of (48 + n) else char_of (87 + n))"

text \<open>
  A string as \<^verbatim>\<open>json.dumps\<close> writes it with \<^verbatim>\<open>ensure_ascii\<close>: quotes and
  backslashes escaped, the short escapes for the five control characters that have one,
  and \<^verbatim>\<open>\u00xx\<close> for every other character outside space to tilde.
\<close>

definition escape_char :: "char \<Rightarrow> string" where
  "escape_char c =
     (let n = (of_char c :: nat)
      in if c = CHR 0x22 then [CHR 0x5C, CHR 0x22]
         else if c = CHR 0x5C then [CHR 0x5C, CHR 0x5C]
         else if c = CHR 0x0A then [CHR 0x5C, CHR ''n'']
         else if c = CHR 0x0D then [CHR 0x5C, CHR ''r'']
         else if c = CHR 0x09 then [CHR 0x5C, CHR ''t'']
         else if c = CHR 0x08 then [CHR 0x5C, CHR ''b'']
         else if c = CHR 0x0C then [CHR 0x5C, CHR ''f'']
         else if n < 32 \<or> 126 < n then
           [CHR 0x5C, CHR ''u'', CHR ''0'', CHR ''0'', hex_digit (n div 16), hex_digit (n mod 16)]
         else [c])"

definition quote :: "string \<Rightarrow> string" where
  "quote s = [CHR 0x22] @ concat (map escape_char s) @ [CHR 0x22]"

fun join :: "string \<Rightarrow> string list \<Rightarrow> string" where
  "join sep [] = []"
| "join sep [x] = x"
| "join sep (x # y # ys) = x @ sep @ join sep (y # ys)"

text \<open>
  \<^verbatim>\<open>json.dumps(v)\<close> with the default separators. \<open>float_repr\<close> is Python's
  \<^verbatim>\<open>repr\<close> of a float.
\<close>

fun json_dumps :: "(rat \<Rightarrow> string) \<Rightarrow> json \<Rightarrow> string" where
  "json_dumps float_repr JNull = ''null''"
| "json_dumps float_repr (JBool b) = (if b then ''true'' else ''false'')"
| "json_dumps float_repr (JInt n) = show_int n"
| "json_dumps float_repr (JFloat x) = float_repr x"
| "json_dumps float_repr (JString s) = quote s"
| "json_dumps float_repr (JArray xs) =
     ''['' @ join '', '' (map (json_dumps float_repr) xs) @ '']''"
| "json_dumps float_repr (JObject kvs) =
     ''{'' @ join '', '' (map (\<lambda>kv. quote (fst kv) @ '': '' @ json_dumps float_repr (snd kv)) kvs)
       @ ''}''"

section \<open>Bounds on the rounding errors\<close>

text \<open>
  The relative error of one rounding is at most \<open>eps53\<close>, and its absolute error
  among the subnormal numbers at most \<open>eta\<close>. \<open>sum53\<close> is the sum of floats while
  nothing overflows. For \<open>n\<close> rewards whose magnitudes add up to \<open>A\<close>,
  \<open>sum_error\<close> bounds the error of their float sum, \<open>mean_error\<close> that of their
  float mean, and \<open>sum_tolerance\<close> the sum of their advantages.
\<close>

definition eps53 :: rat where
  "eps53 = 2 powi (- 53)"

definition eta :: rat where
  "eta = 2 powi (- 1075)"

definition sum53 :: "rat list \<Rightarrow> rat" where
  "sum53 xs = foldl (\<lambda>acc x. round53 (acc + x)) 0 xs"

definition sum_error :: "nat \<Rightarrow> rat \<Rightarrow> rat" where
  "sum_error n A = of_nat n * (1 + eps53) ^ n * (eps53 * A + eta)"

definition mean_error :: "nat \<Rightarrow> rat \<Rightarrow> rat" where
  "mean_error n A = (eps53 * (A + sum_error n A) + sum_error n A) / of_nat n + eta"

definition sum_tolerance :: "nat \<Rightarrow> rat \<Rightarrow> rat" where
  "sum_tolerance n A = (1 + eps53) * (of_nat n * mean_error n A) + 2 * eps53 * A + of_nat n * eta"

section \<open>Example inputs\<close>

text \<open>The text an f-string inserts for a string value is the string itself.\<close>

fun fmt_string :: "json \<Rightarrow> string" where
  "fmt_string (JString s) = s"
| "fmt_string _ = ''?''"

text \<open>
  A toy tokenizer: it gives a text a start token (when asked for special tokens) and one
  token holding its length.
\<close>

definition length_tokenizer :: tokenizer where
  "length_tokenizer =
     \<lparr>encode = (\<lambda>text add_special_tokens.
                  case text of
                    JString s \<Rightarrow> Inr ((if add_special_tokens then [1] else []) @ [int (length s)])
                  | _ \<Rightarrow> Inl TypeError),
      eos_token_id = 2\<rparr>"

text \<open>No float occurs in the JSON examples; their \<^verbatim>\<open>repr\<close> is never asked for.\<close>

definition no_float_repr :: "rat \<Rightarrow> string" where
  "no_float_repr x = ''nan''"

text \<open>Identifiers that differ in their last digit only.\<close>

definition hex_ids :: "nat \<Rightarrow> string" where
  "hex_ids k = ''0123456789abcdef0123456789abcde'' @ [hex_digit (k mod 16)]"

text \<open>
  A server whose model always answers \<open>reply\<close>. Its tokens are the code points of the
  text, and its sampling service refuses a temperature of zero.
\<close>

definition scripted_server :: "string \<Rightarrow> server" where
  "scripted_server reply =
     \<lparr>model_name = ''gpt-tinker'',
      apply_chat_template = (\<lambda>messages tools. Inr ''prompt''),
      tok_encode = (\<lambda>s. Inr (map (\<lambda>c. int (of_char c)) s)),
      tok_decode = (\<lambda>ts. Inr (map (\<lambda>t. char_of (nat t)) ts)),
      sample = (\<lambda>prompt params.
                  if num_of (temperature params) = Some 0
                  then Inl (ServiceError ''temperature must be positive'')
                  else Inr (map (\<lambda>c. int (of_char c)) reply)),
      uuid4_hex = hex_ids,
      time_now = 1700000000\<rparr>"

text \<open>A trajectory with a problem statement and a patch.\<close>

definition patch_trajectory :: string where
  \<open>patch_trajectory = ''{"problem_statement": "bug", "output_patch": "fix"}''\<close>

text \<open>The float nearest to one tenth, which is what \<^verbatim>\<open>0.1\<close> denotes in Python.\<close>

definition tenth :: rat where
  "tenth = 3602879701896397 / 36028797018963968"

definition three_tenths :: "rollout list" where
  "three_tenths =
     [\<lparr>trajectory_json = patch_trajectory, reward = Finite tenth, task_id = ''t''\<rparr>,
      \<lparr>trajectory_json = patch_trajectory, reward = Finite tenth, task_id = ''t''\<rparr>,
      \<lparr>trajectory_json = patch_trajectory, reward = Finite tenth, task_id = ''t''\<rparr>]"

definition two_rollouts :: "rollout list" where
  "two_rollouts =
     [\<lparr>trajectory_json = patch_trajectory, reward = Finite 0, task_id = ''t''\<rparr>,
      \<lparr>trajectory_json = patch_trajectory, reward = Finite 1, task_id = ''t''\<rparr>]"

section \<open>Properties of the float arithmetic\<close>

lemma nat_floorlog_bounds:
  fixes n :: nat
  assumes "0 < n"
  shows "(2::rat) powi (int (floorlog 2 n) - 1) \<le> of_nat n"
    and "of_nat n < (2::rat) powi int (floorlog 2 n)"
proof -
  from floorlog_bounds[of n 2] assms
  have b: "2 ^ (floorlog 2 n - 1) \<le> n" "n < 2 ^ floorlog 2 n" by auto
  have pos: "0 < floorlog 2 n"
    using assms by (simp add: floorlog_def)
  have "(2::rat) powi (int (floorlog 2 n) - 1) = 2 ^ (floorlog 2 n - 1)"
    using pos by (simp add: power_int_def nat_diff_distrib')
  also have "\<dots> = of_nat (2 ^ (floorlog 2 n - 1))" by simp
  also have "\<dots> \<le> of_nat n" using b(1) by (simp only: of_nat_le_iff)
  finally show "(2::rat) powi (int (floorlog 2 n) - 1) \<le> of_nat n" .
  have "(of_nat n :: rat) < of_nat (2 ^ floorlog 2 n)" using b(2) by (simp only: of_nat_less_iff)
  then show "of_nat n < (2::rat) powi int (floorlog 2 n)" by simp
qed

lemma powi_lt_exp: "(2::rat) powi a < 2 powi b \<Longrightarrow> a < b"
proof (rule ccontr)
  assume lt: "(2::rat) powi a < 2 powi b" and "\<not> a < b"
  then have "b \<le> a" by simp
  then have "(2::rat) powi b \<le> 2 powi a" by (intro power_int_increasing) auto
  with lt show False by simp
qed

lemma ilog2_unique:
  assumes lo: "2 powi e \<le> \<bar>x\<bar>" and hi: "\<bar>x\<bar> < 2 powi (e + 1)"
  shows "ilog2 x = e"
proof -
  obtain p q where pq: "quotient_of \<bar>x\<bar> = (p, q)" by (cases "quotient_of \<bar>x\<bar>")
  have qpos: "0 < q" using pq by (rule quotient_of_denom_pos)
  have xeq: "\<bar>x\<bar> = of_int p / of_int q" using pq by (rule quotient_of_div)
  have xpos: "0 < \<bar>x\<bar>"
  proof -
    have "(0::rat) < 2 powi e" by simp
    with lo show ?thesis by linarith
  qed
  have ppos: "0 < p"
    using xpos qpos xeq by (simp add: zero_less_divide_iff)
  define P Q where "P = nat p" and "Q = nat q"
  have P: "0 < P" "of_int p = (of_nat P :: rat)" using ppos by (simp_all add: P_def)
  have Q: "0 < Q" "of_int q = (of_nat Q :: rat)" using qpos by (simp_all add: Q_def)
  define d where "d = int (floorlog 2 P) - int (floorlog 2 Q)"
  note bP = nat_floorlog_bounds[OF P(1)]
  note bQ = nat_floorlog_bounds[OF Q(1)]
  have Qpos: "(0::rat) < of_nat Q" using Q(1) by simp
  have x': "\<bar>x\<bar> = of_nat P / of_nat Q" using xeq P(2) Q(2) by simp
  have up: "\<bar>x\<bar> < 2 powi (d + 1)"
  proof -
    have "of_nat P < (2::rat) powi int (floorlog 2 P)" by (rule bP(2))
    also have "\<dots> = 2 powi (d + 1) * 2 powi (int (floorlog 2 Q) - 1)"
      by (simp add: d_def flip: power_int_add)
    also have "\<dots> \<le> 2 powi (d + 1) * of_nat Q"
      using bQ(1) by (intro mult_left_mono) auto
    finally have "of_nat P < (2::rat) powi (d + 1) * of_nat Q" .
    then show ?thesis using Qpos by (simp add: x' pos_divide_less_eq)
  qed
  have down: "2 powi (d - 1) < \<bar>x\<bar>"
  proof -
    have "(2::rat) powi (d - 1) * of_nat Q < 2 powi (d - 1) * 2 powi int (floorlog 2 Q)"
      using bQ(2) by (intro mult_strict_left_mono) auto
    also have "\<dots> = 2 powi (d - 1 + int (floorlog 2 Q))"
      by (rule power_int_add[symmetric]) simp
    also have "\<dots> = 2 powi (int (floorlog 2 P) - 1)"
      by (simp add: d_def)
    also have "\<dots> \<le> of_nat P" by (rule bP(1))
    finally have "(2::rat) powi (d - 1) * of_nat Q < of_nat P" .
    then show ?thesis using Qpos by (simp add: x' pos_less_divide_eq)
  qed
  have "(2::rat) powi e < 2 powi (d + 1)" using lo up by linarith
  then have e1: "e < d + 1" by (rule powi_lt_exp)
  have "(2::rat) powi (d - 1) < 2 powi (e + 1)" using down hi by linarith
  then have e2: "d - 1 < e + 1" by (rule powi_lt_exp)
  have il: "ilog2 x = (if 2 powi d \<le> \<bar>x\<bar> then d else d - 1)"
    by (simp add: ilog2_def pq d_def P_def Q_def)
  show ?thesis
  proof (cases "2 powi d \<le> \<bar>x\<bar>")
    case True
    then have "(2::rat) powi d < 2 powi (e + 1)" using hi by linarith
    then have "d < e + 1" by (rule powi_lt_exp)
    with e1 True il show ?thesis by simp
  next
    case False
    then have "(2::rat) powi e < 2 powi d" using lo by linarith
    then have "e < d" by (rule powi_lt_exp)
    with e2 False il show ?thesis by simp
  qed
qed

lemma round53_eval:
  assumes "2 powi e \<le> \<bar>x\<bar>" and "\<bar>x\<bar> < 2 powi (e + 1)" and "- 1022 \<le> e"
  shows "round53 x = of_int (round_half_even (x / 2 powi (e - 52))) * 2 powi (e - 52)"
proof -
  have "x \<noteq> 0"
  proof
    assume "x = 0"
    then have "(2::rat) powi e \<le> 0" using assms(1) by simp
    moreover have "(0::rat) < 2 powi e" by simp
    ultimately show False by linarith
  qed
  then show ?thesis
    using assms(3) by (simp add: round53_def Let_def ilog2_unique[OF assms(1,2)] max_def)
qed

lemma floor_rat_numeral:
  "\<lfloor>numeral a / (numeral b :: rat)\<rfloor> = numeral a div numeral b"
  using floor_divide_of_int_eq[of "numeral a" "numeral b", where ?'a = rat] by simp

lemma floor_rat_neg_numeral:
  "\<lfloor>- (numeral a / (numeral b :: rat))\<rfloor> = - numeral a div numeral b"
  using floor_divide_of_int_eq[of "- numeral a" "numeral b", where ?'a = rat] by simp

lemmas round53_calc = round_half_even_def Let_def floor_rat_numeral floor_rat_neg_numeral

subsection \<open>Rounding errors\<close>

lemma ilog2_bounds:
  assumes "x \<noteq> 0"
  shows "2 powi ilog2 x \<le> \<bar>x\<bar>" and "\<bar>x\<bar> < 2 powi (ilog2 x + 1)"
proof -
  obtain p q where pq: "quotient_of \<bar>x\<bar> = (p, q)" by (cases "quotient_of \<bar>x\<bar>")
  have qpos: "0 < q" using pq by (rule quotient_of_denom_pos)
  have xeq: "\<bar>x\<bar> = of_int p / of_int q" using pq by (rule quotient_of_div)
  have xpos: "0 < \<bar>x\<bar>" using assms by simp
  have ppos: "0 < p"
    using xpos qpos xeq by (simp add: zero_less_divide_iff)
  define P Q where "P = nat p" and "Q = nat q"
  have P: "0 < P" "of_int p = (of_nat P :: rat)" using ppos by (simp_all add: P_def)
  have Q: "0 < Q" "of_int q = (of_nat Q :: rat)" using qpos by (simp_all add: Q_def)
  define d where "d = int (floorlog 2 P) - int (floorlog 2 Q)"
  note bP = nat_floorlog_bounds[OF P(1)]
  note bQ = nat_floorlog_bounds[OF Q(1)]
  have Qpos: "(0::rat) < of_nat Q" using Q(1) by simp
  have x': "\<bar>x\<bar> = of_nat P / of_nat Q" using xeq P(2) Q(2) by simp
  have up: "\<bar>x\<bar> < 2 powi (d + 1)"
  proof -
    have "of_nat P < (2::rat) powi int (floorlog 2 P)" by (rule bP(2))
    also have "\<dots> = 2 powi (d + 1) * 2 powi (int (floorlog 2 Q) - 1)"
      by (simp add: d_def flip: power_int_add)
    also have "\<dots> \<le> 2 powi (d + 1) * of_nat Q"
      using bQ(1) by (intro mult_left_mono) auto
    finally have "of_nat P < (2::rat) powi (d + 1) * of_nat Q" .
    then show ?thesis using Qpos by (simp add: x' pos_divide_less_eq)
  qed
  have down: "2 powi (d - 1) < \<bar>x\<bar>"
  proof -
    have "(2::rat) powi (d - 1) * of_nat Q < 2 powi (d - 1) * 2 powi int (floorlog 2 Q)"
      using bQ(2) by (intro mult_strict_left_mono) auto
    also have "\<dots> = 2 powi (d - 1 + int (floorlog 2 Q))"
      by (rule power_int_add[symmetric]) simp
    also have "\<dots> = 2 powi (int (floorlog 2 P) - 1)"
      by (simp add: d_def)
    also have "\<dots> \<le> of_nat P" by (rule bP(1))
    finally have "(2::rat) powi (d - 1) * of_nat Q < of_nat P" .
    then show ?thesis using Qpos by (simp add: x' pos_less_divide_eq)
  qed
  have il: "ilog2 x = (if 2 powi d \<le> \<bar>x\<bar> then d else d - 1)"
    by (simp add: ilog2_def pq d_def P_def Q_def)
  show "2 powi ilog2 x \<le> \<bar>x\<bar>"
    using il down by (auto split: if_splits)
  show "\<bar>x\<bar> < 2 powi (ilog2 x + 1)"
    using il up by (auto split: if_splits)
qed

lemma round_half_even_error: "\<bar>of_int (round_half_even y) - y\<bar> \<le> 1 / 2"
proof -
  define f where "f = \<lfloor>y\<rfloor>"
  define d where "d = y - of_int f"
  have d: "0 \<le> d" "d < 1" unfolding d_def f_def by linarith+
  have y: "y = of_int f + d" by (simp add: d_def)
  have r: "round_half_even y
             = (if d < 1 / 2 then f else if 1 / 2 < d then f + 1
                else if even f then f else f + 1)"
    unfolding round_half_even_def Let_def f_def[symmetric] d_def[symmetric] by (rule refl)
  consider "d < 1 / 2" | "1 / 2 < d" | "d = 1 / 2" by linarith
  then show ?thesis
  proof cases
    case 1
    then have "round_half_even y = f" using r by simp
    then have "of_int (round_half_even y) - y = - d" using y by simp
    with 1 d show ?thesis by simp
  next
    case 2
    then have "round_half_even y = f + 1" using r by simp
    then have "of_int (round_half_even y) - y = 1 - d" using y by simp
    with 2 d show ?thesis by simp
  next
    case 3
    then have "round_half_even y = f \<or> round_half_even y = f + 1" using r by simp
    then have "of_int (round_half_even y) - y = - d \<or> of_int (round_half_even y) - y = 1 - d"
      using y by auto
    with 3 show ?thesis by auto
  qed
qed

lemma eps53_pos: "0 < eps53" by (simp add: eps53_def)

lemma eta_pos: "0 < eta" by (simp add: eta_def)

lemma round53_error: "\<bar>round53 x - x\<bar> \<le> eps53 * \<bar>x\<bar> + eta"
proof (cases "x = 0")
  case True
  then show ?thesis using eta_pos by (simp add: round53_def)
next
  case False
  define e where "e = max (ilog2 x) (- 1022)"
  define u :: rat where "u = 2 powi (e - 52)"
  have upos: "0 < u" by (simp add: u_def)
  have r: "round53 x = of_int (round_half_even (x / u)) * u"
    using False by (simp add: round53_def Let_def e_def u_def)
  have "round53 x - x = (of_int (round_half_even (x / u)) - x / u) * u"
    using upos by (simp add: r algebra_simps)
  then have "\<bar>round53 x - x\<bar> = \<bar>of_int (round_half_even (x / u)) - x / u\<bar> * u"
    using upos by (simp add: abs_mult)
  also have "\<dots> \<le> 1 / 2 * u"
    using round_half_even_error[of "x / u"] upos by (intro mult_right_mono) auto
  finally have half: "\<bar>round53 x - x\<bar> \<le> u / 2" by simp
  have "u / 2 \<le> eps53 * \<bar>x\<bar> + eta"
  proof (cases "- 1022 \<le> ilog2 x")
    case True
    then have "e = ilog2 x" by (simp add: e_def)
    then have "u / 2 = 2 powi (ilog2 x - 52) * 2 powi (- 1)" by (simp add: u_def)
    also have "\<dots> = 2 powi (ilog2 x - 52 + - 1)" by (rule power_int_add[symmetric]) simp
    also have "ilog2 x - 52 + - 1 = - 53 + ilog2 x" by simp
    also have "(2::rat) powi (- 53 + ilog2 x) = 2 powi (- 53) * 2 powi ilog2 x"
      by (rule power_int_add) simp
    also have "\<dots> \<le> 2 powi (- 53) * \<bar>x\<bar>"
      using ilog2_bounds(1)[OF False] by (intro mult_left_mono) auto
    finally have "u / 2 \<le> eps53 * \<bar>x\<bar>" by (simp add: eps53_def)
    then show ?thesis using eta_pos by linarith
  next
    case False
    then have "e = - 1022" by (simp add: e_def)
    then have "u / 2 = eta" by (simp add: u_def eta_def)
    moreover have "0 \<le> eps53 * \<bar>x\<bar>" using eps53_pos by simp
    ultimately show ?thesis by linarith
  qed
  with half show ?thesis by linarith
qed

lemma sum53_snoc: "sum53 (xs @ [x]) = round53 (sum53 xs + x)"
  by (simp add: sum53_def)

lemma sum_error_nonneg: "0 \<le> A \<Longrightarrow> 0 \<le> sum_error n A"
  using eps53_pos eta_pos by (simp add: sum_error_def)

lemma sum_abs_nonneg: "0 \<le> sum_list (map abs (rs :: rat list))"
  by (induction rs) simp_all

lemma sum53_error:
  "\<bar>sum53 rs - sum_list rs\<bar> \<le> sum_error (length rs) (sum_list (map abs rs))"
proof (induction rs rule: rev_induct)
  case Nil
  show ?case by (simp add: sum53_def sum_error_def)
next
  case (snoc r rs)
  define s S A n where "s = sum53 rs" and "S = sum_list rs"
    and "A = sum_list (map abs rs)" and "n = (of_nat (length rs) :: rat)"
  define q c c' where "q = (1 + eps53) ^ length rs" and "c = eps53 * A + eta"
    and "c' = eps53 * (A + \<bar>r\<bar>) + eta"
  define D where "D = \<bar>s - S\<bar>"
  have A0: "0 \<le> A" unfolding A_def by (rule sum_abs_nonneg)
  have n0: "0 \<le> n" by (simp add: n_def)
  have q1: "1 \<le> q" unfolding q_def using eps53_pos by (intro one_le_power) simp
  have c0: "0 \<le> c" using A0 eps53_pos eta_pos by (simp add: c_def)
  have cc: "c \<le> c'" using eps53_pos by (simp add: c_def c'_def algebra_simps)
  have c'0: "0 \<le> c'" using c0 cc by linarith
  have ih: "D \<le> n * q * c"
    using snoc.IH by (simp add: D_def s_def S_def n_def q_def c_def A_def sum_error_def)
  have "n * q * c \<le> n * q * c'"
    using cc n0 q1 by (intro mult_left_mono) auto
  with ih have DB: "D \<le> n * q * c'" by linarith
  have D0: "0 \<le> D" by (simp add: D_def)
  have absS: "\<bar>S + r\<bar> \<le> A + \<bar>r\<bar>"
  proof -
    have "\<bar>S + r\<bar> \<le> \<bar>S\<bar> + \<bar>r\<bar>" by (rule abs_triangle_ineq)
    moreover have "\<bar>S\<bar> \<le> A" unfolding S_def A_def by (rule sum_list_abs)
    ultimately show ?thesis by linarith
  qed
  have "\<bar>s + r\<bar> \<le> \<bar>S + r\<bar> + D"
    unfolding D_def by linarith
  with absS have sr: "\<bar>s + r\<bar> \<le> A + \<bar>r\<bar> + D" by linarith
  have "\<bar>round53 (s + r) - (s + r)\<bar> \<le> eps53 * \<bar>s + r\<bar> + eta"
    by (rule round53_error)
  also have "\<dots> \<le> eps53 * (A + \<bar>r\<bar> + D) + eta"
    using sr eps53_pos by (simp add: mult_left_mono)
  finally have rnd: "\<bar>round53 (s + r) - (s + r)\<bar> \<le> c' + eps53 * D"
    by (simp add: c'_def algebra_simps)
  have "\<bar>round53 (s + r) - (S + r)\<bar> \<le> \<bar>round53 (s + r) - (s + r)\<bar> + D"
    unfolding D_def by linarith
  with rnd have "\<bar>round53 (s + r) - (S + r)\<bar> \<le> c' + (1 + eps53) * D"
    by (simp add: algebra_simps)
  also have "\<dots> \<le> c' + (1 + eps53) * (n * q * c')"
    using DB eps53_pos by (simp add: mult_left_mono)
  also have "\<dots> \<le> (n + 1) * ((1 + eps53) * q) * c'"
  proof -
    have "1 \<le> (1 + eps53) * q"
    proof -
      have "1 * 1 \<le> (1 + eps53) * q"
        using q1 eps53_pos by (intro mult_mono) auto
      then show ?thesis by simp
    qed
    then have "1 * c' \<le> ((1 + eps53) * q) * c'"
      using c'0 by (intro mult_right_mono) auto
    then show ?thesis by (simp add: algebra_simps)
  qed
  finally have "\<bar>round53 (s + r) - (S + r)\<bar> \<le> (n + 1) * ((1 + eps53) * q) * c'" .
  then show ?case
    by (simp add: sum53_snoc sum_error_def s_def S_def n_def q_def c'_def A_def algebra_simps)
qed

lemma mean53_error:
  assumes "rs \<noteq> []"
  shows "\<bar>round53 (sum53 rs / of_nat (length rs)) - sum_list rs / of_nat (length rs)\<bar>
           \<le> mean_error (length rs) (sum_list (map abs rs))"
proof -
  define s S A n E where "s = sum53 rs" and "S = sum_list rs"
    and "A = sum_list (map abs rs)" and "n = (of_nat (length rs) :: rat)"
    and "E = sum_error (length rs) (sum_list (map abs rs))"
  have n1: "1 \<le> n" using assms by (cases rs) (simp_all add: n_def)
  then have npos: "0 < n" by linarith
  have sE: "\<bar>s - S\<bar> \<le> E" unfolding s_def S_def E_def by (rule sum53_error)
  have "\<bar>S\<bar> \<le> A" unfolding S_def A_def by (rule sum_list_abs)
  with sE have sA: "\<bar>s\<bar> \<le> A + E" by linarith
  have "\<bar>round53 (s / n) - s / n\<bar> \<le> eps53 * \<bar>s / n\<bar> + eta" by (rule round53_error)
  also have "eps53 * \<bar>s / n\<bar> = eps53 * \<bar>s\<bar> / n" using npos by simp
  also have "eps53 * \<bar>s\<bar> / n \<le> eps53 * (A + E) / n"
    using sA eps53_pos npos by (intro divide_right_mono mult_left_mono) auto
  finally have a: "\<bar>round53 (s / n) - s / n\<bar> \<le> eps53 * (A + E) / n + eta" by simp
  have "\<bar>s / n - S / n\<bar> = \<bar>s - S\<bar> / n"
    using npos by (simp add: diff_divide_distrib[symmetric])
  also have "\<dots> \<le> E / n" using sE npos by (intro divide_right_mono) auto
  finally have b: "\<bar>s / n - S / n\<bar> \<le> E / n" .
  have "\<bar>round53 (s / n) - S / n\<bar> \<le> \<bar>round53 (s / n) - s / n\<bar> + \<bar>s / n - S / n\<bar>"
    by linarith
  with a b have "\<bar>round53 (s / n) - S / n\<bar> \<le> eps53 * (A + E) / n + eta + E / n"
    by linarith
  also have "\<dots> = (eps53 * (A + E) + E) / n + eta"
    by (simp add: add_divide_distrib)
  finally show ?thesis
    by (simp add: mean_error_def s_def S_def A_def n_def E_def)
qed

lemma centred_sum_error:
  "\<bar>sum_list (map (\<lambda>r. round53 (r - m)) rs) - (sum_list rs - of_nat (length rs) * m)\<bar>
     \<le> eps53 * (sum_list (map abs rs) + of_nat (length rs) * \<bar>m\<bar>) + of_nat (length rs) * eta"
proof (induction rs)
  case Nil
  show ?case by simp
next
  case (Cons r rs)
  define T where "T = sum_list (map (\<lambda>r. round53 (r - m)) rs) - (sum_list rs - of_nat (length rs) * m)"
  define B where "B = eps53 * (sum_list (map abs rs) + of_nat (length rs) * \<bar>m\<bar>) + of_nat (length rs) * eta"
  have ih: "\<bar>T\<bar> \<le> B" using Cons.IH by (simp add: T_def B_def)
  have "\<bar>round53 (r - m) - (r - m)\<bar> \<le> eps53 * \<bar>r - m\<bar> + eta" by (rule round53_error)
  also have "\<dots> \<le> eps53 * (\<bar>r\<bar> + \<bar>m\<bar>) + eta"
  proof -
    have "\<bar>r - m\<bar> \<le> \<bar>r\<bar> + \<bar>m\<bar>" by linarith
    then show ?thesis using eps53_pos by (simp add: mult_left_mono)
  qed
  finally have th: "\<bar>round53 (r - m) - (r - m)\<bar> \<le> eps53 * (\<bar>r\<bar> + \<bar>m\<bar>) + eta" .
  have e1: "sum_list (map (\<lambda>r. round53 (r - m)) (r # rs))
          - (sum_list (r # rs) - of_nat (length (r # rs)) * m)
        = (round53 (r - m) - (r - m)) + T"
    by (simp add: T_def algebra_simps)
  have e2: "\<bar>(round53 (r - m) - (r - m)) + T\<bar>
      \<le> eps53 * (\<bar>r\<bar> + \<bar>m\<bar>) + eta + B"
    using th ih by linarith
  have e3: "eps53 * (sum_list (map abs (r # rs)) + of_nat (length (r # rs)) * \<bar>m\<bar>)
        + of_nat (length (r # rs)) * eta
      = eps53 * (\<bar>r\<bar> + \<bar>m\<bar>) + eta + B"
    by (simp add: B_def algebra_simps)
  show ?case unfolding e1 e3 by (rule e2)
qed

lemma advantages53_sum:
  assumes "rs \<noteq> []"
      and m: "m = round53 (sum53 rs / of_nat (length rs))"
  shows "\<bar>sum_list (map (\<lambda>r. round53 (r - m)) rs)\<bar>
           \<le> sum_tolerance (length rs) (sum_list (map abs rs))"
proof -
  define S A n ME where "S = sum_list rs" and "A = sum_list (map abs rs)"
    and "n = (of_nat (length rs) :: rat)"
    and "ME = mean_error (length rs) (sum_list (map abs rs))"
  have n1: "1 \<le> n" using assms(1) by (cases rs) (simp_all add: n_def)
  then have npos: "0 < n" by linarith
  have me: "\<bar>m - S / n\<bar> \<le> ME"
    unfolding m S_def n_def ME_def using assms(1) by (rule mean53_error)
  have SA: "\<bar>S\<bar> \<le> A" unfolding S_def A_def by (rule sum_list_abs)
  have nm: "\<bar>S - n * m\<bar> \<le> n * ME"
  proof -
    have "S - n * m = n * (S / n - m)" using npos by (simp add: algebra_simps)
    then have "\<bar>S - n * m\<bar> = n * \<bar>S / n - m\<bar>" using npos by (simp add: abs_mult)
    also have "\<dots> \<le> n * ME" using me npos by (intro mult_left_mono) auto
    finally show ?thesis .
  qed
  have "n * \<bar>m\<bar> = \<bar>n * m\<bar>" using npos by (simp add: abs_mult)
  also have "\<dots> \<le> \<bar>S\<bar> + \<bar>S - n * m\<bar>" by linarith
  finally have nabs: "n * \<bar>m\<bar> \<le> A + n * ME" using SA nm by linarith
  have "\<bar>sum_list (map (\<lambda>r. round53 (r - m)) rs) - (S - n * m)\<bar>
          \<le> eps53 * (A + n * \<bar>m\<bar>) + n * eta"
    unfolding S_def A_def n_def by (rule centred_sum_error)
  also have "\<dots> \<le> eps53 * (A + (A + n * ME)) + n * eta"
    using nabs eps53_pos by (simp add: mult_left_mono)
  finally have "\<bar>sum_list (map (\<lambda>r. round53 (r - m)) rs)\<bar>
      \<le> n * ME + (eps53 * (A + (A + n * ME)) + n * eta)"
    using nm by linarith
  also have "\<dots> = (1 + eps53) * (n * ME) + 2 * eps53 * A + n * eta"
    by (simp add: algebra_simps)
  finally show ?thesis
    by (simp add: sum_tolerance_def A_def n_def ME_def)
qed

section \<open>Properties of the model of the json module\<close>

lemma progress_Inl [simp]: "progress s (Inl e) = (e \<noteq> OutOfFuel)"
  by (simp add: progress_def)

lemma progress_Inr [simp]: "progress s (Inr (v, r)) = (length r < length s)"
  by (simp add: progress_def)

lemma progress_mono:
  "progress s' res \<Longrightarrow> length s' \<le> length s \<Longrightarrow> progress s res"
  by (auto simp: progress_def split: sum.splits)

lemma progress_map:
  "progress s res \<Longrightarrow> progress s (case res of Inl e \<Rightarrow> Inl e | Inr (x, r) \<Rightarrow> Inr (f x, r))"
  by (auto simp: progress_def split: sum.splits)

lemma length_skip_ws: "length (skip_ws s) \<le> length s"
  by (simp add: skip_ws_def length_dropWhile_le)

lemma length_skip_ws_tl: "length (skip_ws (tl s)) \<le> length s"
  using length_skip_ws[of "tl s"] by simp

lemma scan_string_progress: "progress s (scan_string acc s)"
proof (induction "length s" arbitrary: acc s rule: less_induct)
  case less
  show ?case
  proof (cases s)
    case Nil
    then show ?thesis by simp
  next
    case s: (Cons c t)
    show ?thesis
    proof (cases t)
      case Nil
      with s show ?thesis by simp
    next
      case t: (Cons e es)
      have ih: "length y < length s \<Longrightarrow> progress s (scan_string a y)" for a y
        using less[of y a] by (auto intro: progress_mono)
      have eq: "s = c # e # es" using s t by simp
      consider (quote) "c = CHR 0x22"
        | (uni) "c \<noteq> CHR 0x22" "c = CHR 0x5C" "e = CHR ''u''"
        | (esc) "c \<noteq> CHR 0x22" "c = CHR 0x5C" "e \<noteq> CHR ''u''"
        | (other) "c \<noteq> CHR 0x22" "c \<noteq> CHR 0x5C"
        by blast
      then show ?thesis
      proof cases
        case quote
        then show ?thesis by (simp add: eq)
      next
        case uni
        show ?thesis
        proof (cases es)
          case Nil
          with uni show ?thesis by (simp add: eq)
        next
          case e1: (Cons h1 es1)
          show ?thesis
          proof (cases es1)
            case Nil
            with uni e1 show ?thesis by (simp add: eq)
          next
            case e2: (Cons h2 es2)
            show ?thesis
            proof (cases es2)
              case Nil
              with uni e1 e2 show ?thesis by (simp add: eq)
            next
              case e3: (Cons h3 es3)
              show ?thesis
              proof (cases es3)
                case Nil
                with uni e1 e2 e3 show ?thesis by (simp add: eq)
              next
                case e4: (Cons h4 rest)
                have "length rest < length s" by (simp add: eq e1 e2 e3 e4)
                from ih[OF this] uni e1 e2 e3 e4 show ?thesis
                  by (simp add: eq split: option.splits)
              qed
            qed
          qed
        qed
      next
        case esc
        have "length es < length s" by (simp add: eq)
        from ih[OF this] esc show ?thesis
          by (simp add: eq split: option.splits)
      next
        case other
        have "length (e # es) < length s" by (simp add: eq)
        from ih[OF this] other show ?thesis
          by (simp add: eq)
      qed
    qed
  qed
qed

lemma scan_digits_progress: "progress s (scan_digits neg s)"
proof (cases s)
  case Nil
  then show ?thesis by (simp add: scan_digits_def)
next
  case (Cons c cs)
  define ds where "ds = (if c = CHR ''0'' then [c] else c # takeWhile is_digit cs)"
  have "0 < length ds" by (simp add: ds_def)
  then have "length (drop (length ds) (c # cs)) < length (c # cs)" by simp
  then show ?thesis
    unfolding scan_digits_def Cons ds_def[symmetric] Let_def list.case
    by (simp split: option.splits)
qed

lemma scan_number_progress: "progress s (scan_number s)"
proof (cases "s \<noteq> [] \<and> hd s = CHR ''-''")
  case True
  have "progress (tl s) (scan_digits True (tl s))" by (rule scan_digits_progress)
  then have "progress s (scan_digits True (tl s))" by (rule progress_mono) simp
  with True show ?thesis by (simp add: scan_number_def)
next
  case False
  then have "scan_number s = scan_digits False s" by (auto simp: scan_number_def)
  then show ?thesis by (simp add: scan_digits_progress)
qed

lemma scan_once_step:
  assumes mem: "\<And>acc t. 2 * length t + 1 < n \<Longrightarrow> progress t (scan_members n acc t)"
      and el: "\<And>acc t. 2 * length t + 1 < n \<Longrightarrow> progress t (scan_elements n acc t)"
      and n: "2 * length s < Suc n"
  shows "progress s (scan_once (Suc n) s)"
proof (cases s)
  case Nil
  then show ?thesis by simp
next
  case (Cons c cs)
  have r: "2 * length (skip_ws cs) + 1 < n"
    using n Cons length_skip_ws[of cs] by simp
  have up: "progress (skip_ws cs) res \<Longrightarrow> progress (c # cs) res" for res :: "decode_error + json \<times> string"
    using length_skip_ws[of cs] by (auto intro: progress_mono)
  consider (str) "c = CHR 0x22"
    | (obj) "c \<noteq> CHR 0x22" "c = CHR ''{''"
    | (arr) "c \<noteq> CHR 0x22" "c \<noteq> CHR ''{''" "c = CHR ''[''"
    | (other) "c \<noteq> CHR 0x22" "c \<noteq> CHR ''{''" "c \<noteq> CHR ''[''"
    by blast
  then have "progress (c # cs) (scan_once (Suc n) (c # cs))"
  proof cases
    case str
    have "progress cs (scan_string [] cs)" by (rule scan_string_progress)
    then have "progress (c # cs) (scan_string [] cs)" by (rule progress_mono) simp
    then have "progress (c # cs)
        (case scan_string [] cs of Inl e \<Rightarrow> Inl e | Inr (x, rest) \<Rightarrow> Inr (JString x, rest))"
      by (rule progress_map)
    with str show ?thesis by simp
  next
    case obj
    show ?thesis
    proof (cases "skip_ws cs \<noteq> [] \<and> hd (skip_ws cs) = CHR ''}''")
      case True
      then have "length (tl (skip_ws cs)) < length (skip_ws cs)" by simp
      then have "length (tl (skip_ws cs)) < length (c # cs)"
        using length_skip_ws[of cs] by simp
      with True obj show ?thesis by (simp add: Let_def)
    next
      case False
      from up[OF mem[OF r, of "[]"]] False obj show ?thesis by (auto simp: Let_def)
    qed
  next
    case arr
    show ?thesis
    proof (cases "skip_ws cs \<noteq> [] \<and> hd (skip_ws cs) = CHR '']''")
      case True
      then have "length (tl (skip_ws cs)) < length (skip_ws cs)" by simp
      then have "length (tl (skip_ws cs)) < length (c # cs)"
        using length_skip_ws[of cs] by simp
      with True arr show ?thesis by (simp add: Let_def)
    next
      case False
      from up[OF el[OF r, of "[]"]] False arr show ?thesis by (auto simp: Let_def)
    qed
  next
    case other
    have "progress (c # cs) (scan_number (c # cs))" by (rule scan_number_progress)
    with other show ?thesis by (simp add: less_Suc_eq_le)
  qed
  with Cons show ?thesis by simp
qed

lemma scan_members_step:
  assumes once: "\<And>t. 2 * length t < n \<Longrightarrow> progress t (scan_once n t)"
      and mem: "\<And>acc t. 2 * length t + 1 < n \<Longrightarrow> progress t (scan_members n acc t)"
      and n: "2 * length s + 1 < Suc n"
  shows "progress s (scan_members (Suc n) acc s)"
proof (cases s)
  case Nil
  then show ?thesis by simp
next
  case (Cons c cs)
  show ?thesis
  proof (cases "c = CHR 0x22")
    case False
    with Cons show ?thesis by simp
  next
    case c: True
    show ?thesis
    proof (cases "scan_string [] cs")
      case (Inl e)
      with scan_string_progress[of cs "[]"] have "e \<noteq> OutOfFuel" by simp
      with Inl c Cons show ?thesis by simp
    next
      case (Inr p)
      obtain key r1 where p: "p = (key, r1)" by (cases p)
      from Inr p scan_string_progress[of cs "[]"] have r1: "length r1 < length cs" by simp
      show ?thesis
      proof (cases "skip_ws r1 = [] \<or> hd (skip_ws r1) \<noteq> CHR '':''")
        case True
        with Inr p c Cons show ?thesis by (auto simp: Let_def)
      next
        case colon: False
        let ?t = "skip_ws (tl (skip_ws r1))"
        have t: "length ?t \<le> length r1"
          using length_skip_ws_tl[of "skip_ws r1"] length_skip_ws[of r1] by simp
        have "2 * length ?t < n" using t r1 n Cons by simp
        note pt = once[OF this]
        show ?thesis
        proof (cases "scan_once n ?t")
          case (Inl e)
          with pt have "e \<noteq> OutOfFuel" by simp
          with Inl Inr p c Cons colon show ?thesis by (simp add: Let_def)
        next
          case v: (Inr q)
          obtain v r3 where q: "q = (v, r3)" by (cases q)
          from v q pt have r3: "length r3 < length ?t" by simp
          let ?r4 = "skip_ws r3"
          have r4: "length ?r4 \<le> length r3" by (rule length_skip_ws)
          let ?u = "skip_ws (tl ?r4)"
          have u: "length ?u \<le> length r3"
            using length_skip_ws_tl[of ?r4] r4 by simp
          have "2 * length ?u + 1 < n" using u r3 t r1 n Cons by simp
          from mem[OF this, of "update_key key v acc"]
          have pu: "progress s (scan_members n (update_key key v acc) ?u)"
            by (rule progress_mono) (use u r3 t r1 Cons in simp)
          have tl4: "length (tl ?r4) < length s"
            using r4 r3 t r1 Cons by simp
          from v q Inr p c Cons colon pu tl4 show ?thesis
            by (simp add: Let_def)
        qed
      qed
    qed
  qed
qed

lemma scan_elements_step:
  assumes once: "\<And>t. 2 * length t < n \<Longrightarrow> progress t (scan_once n t)"
      and el: "\<And>acc t. 2 * length t + 1 < n \<Longrightarrow> progress t (scan_elements n acc t)"
      and n: "2 * length s + 1 < Suc n"
  shows "progress s (scan_elements (Suc n) acc s)"
proof -
  have "2 * length s < n" using n by simp
  note ps = once[OF this]
  show ?thesis
  proof (cases "scan_once n s")
    case (Inl e)
    with ps have "e \<noteq> OutOfFuel" by simp
    with Inl show ?thesis by simp
  next
    case (Inr q)
    obtain v r1 where q: "q = (v, r1)" by (cases q)
    from Inr q ps have r1: "length r1 < length s" by simp
    let ?r2 = "skip_ws r1"
    have r2: "length ?r2 \<le> length r1" by (rule length_skip_ws)
    let ?u = "skip_ws (tl ?r2)"
    have u: "length ?u \<le> length r1"
      using length_skip_ws_tl[of ?r2] r2 by simp
    have "2 * length ?u + 1 < n" using u r1 n by simp
    from el[OF this, of "acc @ [v]"]
    have pu: "progress s (scan_elements n (acc @ [v]) ?u)"
      by (rule progress_mono) (use u r1 in simp)
    have tl2: "length (tl ?r2) < length s" using r2 r1 by simp
    from Inr q pu tl2 show ?thesis by (simp add: Let_def)
  qed
qed

lemma scan_progress:
  "(\<forall>s. 2 * length s < n \<longrightarrow> progress s (scan_once n s))
   \<and> (\<forall>acc s. 2 * length s + 1 < n \<longrightarrow> progress s (scan_members n acc s))
   \<and> (\<forall>acc s. 2 * length s + 1 < n \<longrightarrow> progress s (scan_elements n acc s))"
proof (induction n)
  case 0
  show ?case by simp
next
  case (Suc n)
  from Suc have
    once: "\<And>t. 2 * length t < n \<Longrightarrow> progress t (scan_once n t)" and
    mem: "\<And>acc t. 2 * length t + 1 < n \<Longrightarrow> progress t (scan_members n acc t)" and
    el: "\<And>acc t. 2 * length t + 1 < n \<Longrightarrow> progress t (scan_elements n acc t)"
    by blast+
  show ?case
    using scan_once_step[OF mem el] scan_members_step[OF once mem]
          scan_elements_step[OF once el]
    by blast
qed

text \<open>The fuel that \<open>json_loads\<close> gives the scanner is never used up.\<close>

lemma json_loads_fuel: "scan_once (Suc (2 * length s)) (skip_ws s) \<noteq> Inl OutOfFuel"
proof -
  have "2 * length (skip_ws s) < Suc (2 * length s)"
    using length_skip_ws[of s] by simp
  with scan_progress[of "Suc (2 * length s)"]
  have "progress (skip_ws s) (scan_once (Suc (2 * length s)) (skip_ws s))" by blast
  then show ?thesis by (auto simp: progress_def)
qed

section \<open>Properties of the inference proxy\<close>

subsection \<open>Decoding tool calls\<close>

lemma tool_calls_of_skip:
  "loads b = Inl JSONDecodeError \<Longrightarrow>
     tool_calls_of loads dumps uuid k (b # bs) = tool_calls_of loads dumps uuid k bs"
  by simp

lemma tool_calls_of_object:
  assumes "loads b = Inr (JObject call)"
  shows "tool_calls_of loads dumps uuid k (b # bs) =
     (case tool_calls_of loads dumps uuid (Suc k) bs of
        Inl e \<Rightarrow> Inl e
      | Inr tcs \<Rightarrow>
          Inr (\<lparr>call_id = ''call_'' @ take 8 (uuid k), call_type = ''function'',
                call_function =
                  \<lparr>fn_name = dict_get call ''name'' (JString ''''),
                   fn_arguments =
                     arguments_string dumps (dict_get call ''arguments'' (JObject []))\<rparr>\<rparr>
               # tcs))"
  using assms by (simp add: Let_def split: sum.splits)



lemma dumps_x1: \<open>json_dumps no_float_repr (JObject [(''x'', JInt 1)]) = ''{"x": 1}''\<close>
  by code_simp



text \<open>
  A group that decodes to an object gives a tool call at the head of the result. Where
  the object has no \<open>name\<close> key the name is the empty string, and where it has no
  \<open>arguments\<close> key the arguments are the string \<^verbatim>\<open>{}\<close>.
\<close>

lemma decoded_object_defaults:
  assumes "loads b = Inr (JObject call)"
      and "tool_calls_of loads (json_dumps float_repr) uuid (Suc k) bs = Inr tcs"
  shows "\<exists>tc. tool_calls_of loads (json_dumps float_repr) uuid k (b # bs) = Inr (tc # tcs)
            \<and> (map_of call ''name'' = None \<longrightarrow> fn_name (call_function tc) = JString '''')
            \<and> (map_of call ''arguments'' = None
                 \<longrightarrow> fn_arguments (call_function tc) = ''{}'')"
proof -
  have "json_dumps float_repr (JObject []) = ''{}''" by simp
  then show ?thesis
    using assms by (simp add: Let_def dict_get_def arguments_string_def)
qed

lemma empty_object_block:
  \<open>parse_tool_calls json_loads (json_dumps no_float_repr) hex_ids ''<tool_call>{}</tool_call>''
     = Inr [\<lparr>call_id = ''call_01234567'', call_type = ''function'',
              call_function = \<lparr>fn_name = JString '''', fn_arguments = ''{}''\<rparr>\<rparr>]\<close>
  by code_simp

lemma cut_short_content:
  \<open>json_loads ''{"a": "}</tool_call>"}'' = Inr (JObject [(''a'', JString ''}</tool_call>'')])\<close>
  by code_simp

lemma cut_short_group:
  \<open>finditer 0 ''<tool_call>{"a": "}</tool_call>"}</tool_call>'' = [''{"a": "}'']\<close>
  by code_simp

lemma cut_short_result:
  \<open>parse_tool_calls json_loads (json_dumps no_float_repr) hex_ids
      ''<tool_call>{"a": "}</tool_call>"}</tool_call>'' = Inr []\<close>
  by code_simp

text \<open>
  C10. The claim fails on a block whose object holds a closing brace and the closing
  tag inside a string. The content of the block below is a valid object without the two
  keys, but the group of the pattern ends at the first closing brace that a closing tag
  follows: the group is cut short, fails to decode and is skipped. The result is empty,
  where the claim says one tool call with the default name and arguments.
\<close>

theorem valid_block_cut_short:
  \<open>json_loads ''{"a": "}</tool_call>"}'' = Inr (JObject [(''a'', JString ''}</tool_call>'')])
   \<and> finditer 0 ''<tool_call>{"a": "}</tool_call>"}</tool_call>'' = [''{"a": "}'']
   \<and> parse_tool_calls json_loads (json_dumps no_float_repr) hex_ids
        ''<tool_call>{"a": "}</tool_call>"}</tool_call>'' = Inr []\<close>
  using cut_short_content cut_short_group cut_short_result by blast

text \<open>
  A group that fails to decode is skipped and the loop goes on (\<open>tool_calls_of_skip\<close>),
  and a malformed group in braces followed by a valid block gives the one valid call.
\<close>

lemma malformed_then_valid:
  \<open>parse_tool_calls json_loads (json_dumps no_float_repr) hex_ids
      ''<tool_call>{bad}</tool_call><tool_call>{"name":"f","arguments":{"x":1}}</tool_call>''
     = Inr [\<lparr>call_id = ''call_01234567'', call_type = ''function'',
              call_function = \<lparr>fn_name = JString ''f'', fn_arguments = ''{"x": 1}''\<rparr>\<rparr>]\<close>
  by code_simp

text \<open>
  C7. A malformed block that has no closing brace before its closing tag is not
  matched on its own: the lazy group runs on to the closing brace of the next block, the
  whole span fails to decode, and the valid block is lost with it. The result is empty,
  where the claim says one tool call.
\<close>

theorem unclosed_block_swallows_next:
  \<open>parse_tool_calls json_loads (json_dumps no_float_repr) hex_ids
      ''<tool_call>{"name": "g"</tool_call><tool_call>{"name":"f","arguments":{"x":1}}</tool_call>''
     = Inr []\<close>
  by code_simp

subsection \<open>Chat completions\<close>

lemma min_temperature_value: "min_temperature = 5764607523034235 / 576460752303423488"
  unfolding min_temperature_def
  by (subst round53_eval[where e = "-7"]) (simp_all add: round53_calc)

lemma min_temperature_pos: "0 < min_temperature"
  by (simp add: min_temperature_value)

lemma clamp_temperature_floor:
  assumes "clamp_temperature t = Inr t'"
  shows "\<exists>x. num_of t' = Some x \<and> min_temperature \<le> x"
  using assms by (auto simp: clamp_temperature_def split: option.splits if_splits)

lemma clamp_temperature_zero:
  assumes "num_of t = Some 0"
  shows "clamp_temperature t = Inr (JFloat min_temperature)"
  using assms min_temperature_pos by (simp add: clamp_temperature_def)

lemma clamp_temperature_min:
  "clamp_temperature (JFloat min_temperature) = Inr (JFloat min_temperature)"
  by (simp add: clamp_temperature_def)

lemma generate_cong_temperature:
  assumes "clamp_temperature t = clamp_temperature t'"
  shows "generate srv loads dumps messages t max_toks stop_seqs tools
           = generate srv loads dumps messages t' max_toks stop_seqs tools"
proof -
  have "sampling_request srv messages t max_toks stop_seqs tools
          = sampling_request srv messages t' max_toks stop_seqs tools"
    unfolding sampling_request_def assms by (rule refl)
  then show ?thesis
    unfolding generate_def by (simp only:)
qed

lemma tool_calls_nonempty_iff:
  "tool_calls_of loads dumps uuid k bs = Inr tcs \<Longrightarrow>
     (tcs \<noteq> [] \<longleftrightarrow> (\<exists>b\<in>set bs. \<exists>call. loads b = Inr (JObject call)))"
proof (induction bs arbitrary: k tcs)
  case Nil
  then show ?case by simp
next
  case (Cons b bs)
  show ?case
  proof (cases "loads b")
    case (Inl e)
    with Cons.prems have e: "e = JSONDecodeError" and
      rest: "tool_calls_of loads dumps uuid k bs = Inr tcs"
      by (auto split: if_splits)
    from Cons.IH[OF rest] Inl show ?thesis by simp
  next
    case (Inr v)
    with Cons.prems obtain call where v: "v = JObject call"
      by (cases v) auto
    from Cons.prems Inr v have "tcs \<noteq> []"
      by (auto simp: Let_def split: sum.splits)
    with Inr v show ?thesis by auto
  qed
qed

text \<open>
  C5 (as amended). For every completion that \<open>generate\<close> returns: tool calls are
  decoded from the output only when the \<open>tools\<close> argument is truthy, that is,
  supplied and not empty. Decoding yields a tool call exactly when some match of the
  block pattern decodes to an object. If it yields one, the finish reason is
  \<open>tool_calls\<close>, the tool calls are in the message, and the content is the text
  before the first opening tag with the white space around it stripped, or absent when
  nothing is left. Otherwise the finish reason is \<open>stop\<close> and the content is the whole
  decoded text.
\<close>

theorem completion_shape:
  assumes "generate srv loads dumps messages temp max_toks stop_seqs tools = Inr r"
  shows "\<exists>prompt_toks params output_toks text tcs.
           sampling_request srv messages temp max_toks stop_seqs tools = Inr (prompt_toks, params)
         \<and> sample srv prompt_toks params = Inr output_toks
         \<and> tok_decode srv output_toks = Inr text
         \<and> (if truthy tools
              then parse_tool_calls loads dumps (uuid4_hex srv) text = Inr tcs
                   \<and> (tcs \<noteq> [] \<longleftrightarrow>
                        (\<exists>b\<in>set (finditer 0 text). \<exists>call. loads b = Inr (JObject call)))
              else tcs = [])
         \<and> (tcs \<noteq> [] \<longrightarrow>
               finish_reason r = ''tool_calls''
             \<and> content (choice_message r)
                 = (if strip (before_open_tag text) \<noteq> []
                    then Some (strip (before_open_tag text)) else None)
             \<and> tool_calls (choice_message r) = Some tcs)
         \<and> (tcs = [] \<longrightarrow>
               finish_reason r = ''stop''
             \<and> content (choice_message r) = Some text
             \<and> tool_calls (choice_message r) = None)"
proof -
  from assms obtain prompt_toks params output_toks completion_text tcs where
    sr: "sampling_request srv messages temp max_toks stop_seqs tools = Inr (prompt_toks, params)"
    and sa: "sample srv prompt_toks params = Inr output_toks"
    and de: "tok_decode srv output_toks = Inr completion_text"
    and tc: "(if truthy tools then parse_tool_calls loads dumps (uuid4_hex srv) completion_text
              else Inr []) = Inr tcs"
    and r: "r = (let (msg, reason) = completion_message completion_text tcs
                 in \<lparr>completion_id = ''chatcmpl-'' @ take 8 (uuid4_hex srv (length tcs)),
                     object = ''chat.completion'',
                     created = time_now srv,
                     model = model_name srv,
                     choice_index = 0,
                     choice_message = msg,
                     finish_reason = reason,
                     token_usage =
                       \<lparr>prompt_tokens = length prompt_toks,
                        completion_tokens = length output_toks,
                        total_tokens = length prompt_toks + length output_toks\<rparr>\<rparr>)"
    unfolding generate_def by (auto split: sum.splits prod.splits)
  have a: "if truthy tools
           then parse_tool_calls loads dumps (uuid4_hex srv) completion_text = Inr tcs
                \<and> (tcs \<noteq> [] \<longleftrightarrow>
                     (\<exists>b\<in>set (finditer 0 completion_text). \<exists>call. loads b = Inr (JObject call)))
           else tcs = []"
  proof (cases "truthy tools")
    case True
    with tc have p: "parse_tool_calls loads dumps (uuid4_hex srv) completion_text = Inr tcs" by simp
    then have "tool_calls_of loads dumps (uuid4_hex srv) 0 (finditer 0 completion_text) = Inr tcs"
      by (simp add: parse_tool_calls_def)
    from tool_calls_nonempty_iff[OF this] p True show ?thesis by simp
  next
    case False
    with tc show ?thesis by simp
  qed
  have b: "tcs \<noteq> [] \<longrightarrow>
               finish_reason r = ''tool_calls''
             \<and> content (choice_message r)
                 = (if strip (before_open_tag completion_text) \<noteq> []
                    then Some (strip (before_open_tag completion_text)) else None)
             \<and> tool_calls (choice_message r) = Some tcs"
    by (simp add: r completion_message_def Let_def)
  have c: "tcs = [] \<longrightarrow>
               finish_reason r = ''stop''
             \<and> content (choice_message r) = Some completion_text
             \<and> tool_calls (choice_message r) = None"
    by (simp add: r completion_message_def)
  from sr sa de a b c show ?thesis by blast
qed

lemma run_with_tool_call:
  \<open>generate (scripted_server ''ok <tool_call>{"name":"f"}</tool_call>'')
      json_loads (json_dumps no_float_repr)
      (JArray []) (JInt 1) (JInt 16) JNull (JArray [JString ''tool''])
    = Inr \<lparr>completion_id = ''chatcmpl-01234567'',
            object = ''chat.completion'',
            created = 1700000000,
            model = ''gpt-tinker'',
            choice_index = 0,
            choice_message =
              \<lparr>role = ''assistant'', content = Some ''ok'',
               tool_calls =
                 Some [\<lparr>call_id = ''call_01234567'', call_type = ''function'',
                        call_function = \<lparr>fn_name = JString ''f'', fn_arguments = ''{}''\<rparr>\<rparr>]\<rparr>,
            finish_reason = ''tool_calls'',
            token_usage = \<lparr>prompt_tokens = 6, completion_tokens = 38, total_tokens = 44\<rparr>\<rparr>\<close>
  by code_simp

theorem completion_shape_witness:
  \<open>\<exists>prompt_toks params output_toks text tcs.
       sampling_request (scripted_server ''ok <tool_call>{"name":"f"}</tool_call>'')
           (JArray []) (JInt 1) (JInt 16) JNull (JArray [JString ''tool''])
         = Inr (prompt_toks, params)
     \<and> sample (scripted_server ''ok <tool_call>{"name":"f"}</tool_call>'') prompt_toks params
         = Inr output_toks
     \<and> tok_decode (scripted_server ''ok <tool_call>{"name":"f"}</tool_call>'') output_toks
         = Inr text
     \<and> (if truthy (JArray [JString ''tool''])
          then parse_tool_calls json_loads (json_dumps no_float_repr)
                 (uuid4_hex (scripted_server ''ok <tool_call>{"name":"f"}</tool_call>'')) text
                 = Inr tcs
               \<and> (tcs \<noteq> [] \<longleftrightarrow>
                    (\<exists>b\<in>set (finditer 0 text). \<exists>call. json_loads b = Inr (JObject call)))
          else tcs = [])
     \<and> (tcs \<noteq> [] \<longrightarrow>
           ''tool_calls'' = ''tool_calls''
         \<and> Some ''ok''
             = (if strip (before_open_tag text) \<noteq> []
                then Some (strip (before_open_tag text)) else None)
         \<and> Some [\<lparr>call_id = ''call_01234567'', call_type = ''function'',
                   call_function = \<lparr>fn_name = JString ''f'', fn_arguments = ''{}''\<rparr>\<rparr>]
             = Some tcs)
     \<and> (tcs = [] \<longrightarrow>
           ''tool_calls'' = ''stop''
         \<and> Some ''ok'' = Some text
         \<and> Some [\<lparr>call_id = ''call_01234567'', call_type = ''function'',
                   call_function = \<lparr>fn_name = JString ''f'', fn_arguments = ''{}''\<rparr>\<rparr>]
             = None)\<close>
  using completion_shape [OF run_with_tool_call] by simp

text \<open>
  C5 as stated fails on the output
  \<^verbatim>\<open> a <tool_call> b <tool_call>{"name":"f"}</tool_call>\<close>. Its first tagged block is
  the one that holds the object, and the text before that block is
  \<^verbatim>\<open> a <tool_call> b \<close>; the content of the response is \<^verbatim>\<open>a\<close>.
\<close>

theorem content_counterexample:
  \<open>generate (scripted_server '' a <tool_call> b <tool_call>{"name":"f"}</tool_call>'')
      json_loads (json_dumps no_float_repr)
      (JArray []) (JInt 1) (JInt 16) JNull (JArray [JString ''tool''])
    = Inr \<lparr>completion_id = ''chatcmpl-01234567'',
            object = ''chat.completion'',
            created = 1700000000,
            model = ''gpt-tinker'',
            choice_index = 0,
            choice_message =
              \<lparr>role = ''assistant'', content = Some ''a'',
               tool_calls =
                 Some [\<lparr>call_id = ''call_01234567'', call_type = ''function'',
                        call_function = \<lparr>fn_name = JString ''f'', fn_arguments = ''{}''\<rparr>\<rparr>]\<rparr>,
            finish_reason = ''tool_calls'',
            token_usage = \<lparr>prompt_tokens = 6, completion_tokens = 52, total_tokens = 58\<rparr>\<rparr>\<close>
  by code_simp

subsection \<open>The temperature\<close>

lemma hello_request:
  \<open>sampling_request (scripted_server ''hello'') (JArray []) (JInt 0) (JInt 4096) JNull JNull
     = Inr ([112, 114, 111, 109, 112, 116],
            \<lparr>max_tokens = JInt 4096, temperature = JFloat min_temperature, stop = JArray []\<rparr>)\<close>
  using min_temperature_pos
  by (simp add: sampling_request_def scripted_server_def clamp_temperature_def)

lemma hello_body: \<open>json_loads ''{"temperature": 0}'' = Inr (JObject [(''temperature'', JInt 0)])\<close>
  by code_simp

lemma hello_length: \<open>py_int ''18'' = Some 18\<close>
  by code_simp

lemma hello_read: \<open>rfile_read ''{"temperature": 0}'' 18 = Inr ''{"temperature": 0}''\<close>
  by (simp add: rfile_read_def)

lemma hello_generate:
  \<open>generate (scripted_server ''hello'') json_loads (json_dumps no_float_repr)
      (JArray []) (JFloat min_temperature) (JInt 4096) JNull JNull
    = Inr \<lparr>completion_id = ''chatcmpl-01234567'',
            object = ''chat.completion'',
            created = 1700000000,
            model = ''gpt-tinker'',
            choice_index = 0,
            choice_message =
              \<lparr>role = ''assistant'', content = Some ''hello'', tool_calls = None\<rparr>,
            finish_reason = ''stop'',
            token_usage = \<lparr>prompt_tokens = 6, completion_tokens = 5, total_tokens = 11\<rparr>\<rparr>\<close>
proof -
  have sr: "sampling_request (scripted_server ''hello'') (JArray []) (JFloat min_temperature)
              (JInt 4096) JNull JNull
     = Inr ([112, 114, 111, 109, 112, 116],
            \<lparr>max_tokens = JInt 4096, temperature = JFloat min_temperature, stop = JArray []\<rparr>)"
    by (simp add: sampling_request_def scripted_server_def clamp_temperature_def)
  have sa: "sample (scripted_server ''hello'') [112, 114, 111, 109, 112, 116]
          \<lparr>max_tokens = JInt 4096, temperature = JFloat min_temperature, stop = JArray []\<rparr>
        = Inr [104, 101, 108, 108, 111]"
    using min_temperature_pos by (simp add: scripted_server_def)
  have de: "tok_decode (scripted_server ''hello'') [104, 101, 108, 108, 111] = Inr ''hello''"
    by code_simp
  have env: "uuid4_hex (scripted_server ''hello'') = hex_ids"
            "time_now (scripted_server ''hello'') = 1700000000"
            "model_name (scripted_server ''hello'') = ''gpt-tinker''"
    by (simp_all add: scripted_server_def)
  have ident: "take 8 (hex_ids 0) = ''01234567''"
    by (simp add: hex_ids_def)
  show ?thesis
    by (simp add: generate_def sr sa de env ident completion_message_def)
qed

text \<open>
  C6. The temperature in the sampling parameters is at least the float 0.01, so it is
  never zero, and a temperature of zero is replaced by 0.01. A POST to the
  chat-completions path whose body is read and decoded and asks for temperature 0 is
  answered as the same request with temperature 0.01 is: with status 200 and the
  completion, when the collaborators return one.
\<close>

theorem temperature_clamped:
  "(sampling_request srv messages temp max_toks stop_seqs tools = Inr (prompt_toks, params)
      \<longrightarrow> (\<exists>x. num_of (temperature params) = Some x \<and> min_temperature \<le> x \<and> x \<noteq> 0))
   \<and> (num_of temp = Some 0 \<longrightarrow> clamp_temperature temp = Inr (JFloat min_temperature))
   \<and> ((path = ''/v1/chat/completions'' \<or> path = ''/chat/completions'')
       \<and> headers ''Content-Length'' = Some h \<and> py_int h = Some n
       \<and> rfile_read rfile n = Inr raw \<and> loads raw = Inr (JObject body)
       \<and> num_of (dict_get body ''temperature'' (JFloat 0)) = Some 0
       \<and> generate srv loads dumps
             (dict_get body ''messages'' (JArray []))
             (JFloat min_temperature)
             (dict_get body ''max_tokens'' (JInt 4096))
             (dict_get body ''stop'' JNull)
             (dict_get body ''tools'' JNull) = Inr r
      \<longrightarrow> do_POST srv loads dumps path headers rfile = Response 200 (Completion r))"
proof (intro conjI impI)
  assume "sampling_request srv messages temp max_toks stop_seqs tools = Inr (prompt_toks, params)"
  then have "clamp_temperature temp = Inr (temperature params)"
    by (auto simp: sampling_request_def split: sum.splits)
  from clamp_temperature_floor[OF this] obtain x where
    x: "num_of (temperature params) = Some x" "min_temperature \<le> x" by blast
  then have "x \<noteq> 0" using min_temperature_pos by linarith
  with x show "\<exists>x. num_of (temperature params) = Some x \<and> min_temperature \<le> x \<and> x \<noteq> 0"
    by blast
next
  assume "num_of temp = Some 0"
  then show "clamp_temperature temp = Inr (JFloat min_temperature)"
    by (rule clamp_temperature_zero)
next
  assume a: "(path = ''/v1/chat/completions'' \<or> path = ''/chat/completions'')
       \<and> headers ''Content-Length'' = Some h \<and> py_int h = Some n
       \<and> rfile_read rfile n = Inr raw \<and> loads raw = Inr (JObject body)
       \<and> num_of (dict_get body ''temperature'' (JFloat 0)) = Some 0
       \<and> generate srv loads dumps
             (dict_get body ''messages'' (JArray []))
             (JFloat min_temperature)
             (dict_get body ''max_tokens'' (JInt 4096))
             (dict_get body ''stop'' JNull)
             (dict_get body ''tools'' JNull) = Inr r"
  then have "clamp_temperature (dict_get body ''temperature'' (JFloat 0))
               = clamp_temperature (JFloat min_temperature)"
    by (simp add: clamp_temperature_zero clamp_temperature_min)
  from generate_cong_temperature[OF this] a
  have "generate srv loads dumps
             (dict_get body ''messages'' (JArray []))
             (dict_get body ''temperature'' (JFloat 0))
             (dict_get body ''max_tokens'' (JInt 4096))
             (dict_get body ''stop'' JNull)
             (dict_get body ''tools'' JNull) = Inr r"
    by simp
  with a show "do_POST srv loads dumps path headers rfile = Response 200 (Completion r)"
    by (auto simp: do_POST_def)
qed

theorem temperature_clamped_witness:
  \<open>(\<exists>x. num_of (JFloat min_temperature) = Some x \<and> min_temperature \<le> x \<and> x \<noteq> 0)
   \<and> num_of (JInt 0) = Some 0
   \<and> clamp_temperature (JInt 0) = Inr (JFloat min_temperature)
   \<and> do_POST (scripted_server ''hello'') json_loads (json_dumps no_float_repr)
        ''/v1/chat/completions'' [''Content-Length'' \<mapsto> ''18''] ''{"temperature": 0}''
      = Response 200
          (Completion
             \<lparr>completion_id = ''chatcmpl-01234567'',
              object = ''chat.completion'',
              created = 1700000000,
              model = ''gpt-tinker'',
              choice_index = 0,
              choice_message =
                \<lparr>role = ''assistant'', content = Some ''hello'', tool_calls = None\<rparr>,
              finish_reason = ''stop'',
              token_usage =
                \<lparr>prompt_tokens = 6, completion_tokens = 5, total_tokens = 11\<rparr>\<rparr>)\<close>
  using temperature_clamped
          [where srv = "scripted_server ''hello''" and messages = "JArray []"
             and temp = "JInt 0" and max_toks = "JInt 4096" and stop_seqs = JNull
             and tools = JNull and prompt_toks = "[112, 114, 111, 109, 112, 116]"
             and params = "\<lparr>max_tokens = JInt 4096, temperature = JFloat min_temperature,
                            stop = JArray []\<rparr>"
             and path = "''/v1/chat/completions''"
             and headers = "[''Content-Length'' \<mapsto> ''18'']" and h = "''18''" and n = 18
             and rfile = "''{\"temperature\": 0}''" and raw = "''{\"temperature\": 0}''"
             and loads = json_loads and body = "[(''temperature'', JInt 0)]"
             and dumps = "json_dumps no_float_repr"]
        hello_request hello_body hello_length hello_read hello_generate
  by (simp add: dict_get_def)

subsection \<open>The handler\<close>

text \<open>A response with status 500 is written only after the body was read and decoded.\<close>

lemma status_500_after_decoding:
  assumes "do_POST srv loads dumps path headers rfile = Response 500 b"
  shows "\<exists>h n raw v. headers ''Content-Length'' = Some h \<and> py_int h = Some n
           \<and> rfile_read rfile n = Inr raw \<and> loads raw = Inr v"
  using assms by (auto simp: do_POST_def split: if_splits option.splits sum.splits)

lemma bad_body: \<open>json_loads ''{oops'' = Inl JSONDecodeError\<close>
  by code_simp

lemma bad_length: \<open>py_int ''5'' = Some 5\<close>
  by code_simp

text \<open>
  C9. On the chat-completions path, a missing or non-integer \<open>Content-Length\<close> header,
  a length that the stream refuses to read, and a body that \<^verbatim>\<open>json.loads\<close> rejects
  each end the request with the exception leaving \<^verbatim>\<open>do_POST\<close>: no response is
  written, and in particular not the one with status 500.
\<close>

theorem body_errors_propagate:
  assumes "path = ''/v1/chat/completions'' \<or> path = ''/chat/completions''"
      and "headers ''Content-Length'' = None
           \<or> (\<exists>h. headers ''Content-Length'' = Some h \<and> py_int h = None)
           \<or> (\<exists>h n e. headers ''Content-Length'' = Some h \<and> py_int h = Some n
                    \<and> rfile_read rfile n = Inl e)
           \<or> (\<exists>h n raw e. headers ''Content-Length'' = Some h \<and> py_int h = Some n
                    \<and> rfile_read rfile n = Inr raw \<and> loads raw = Inl e)"
  shows "(\<exists>e. do_POST srv loads dumps path headers rfile = Raised e)
         \<and> (\<forall>status b. do_POST srv loads dumps path headers rfile \<noteq> Response status b)"
  using assms by (auto simp: do_POST_def)

theorem body_errors_propagate_witness:
  \<open>do_POST (scripted_server ''hello'') json_loads (json_dumps no_float_repr)
      ''/v1/chat/completions'' [''Content-Length'' \<mapsto> ''5''] ''{oops''
     = Raised JSONDecodeError
   \<and> do_POST (scripted_server ''hello'') json_loads (json_dumps no_float_repr)
      ''/v1/chat/completions'' Map.empty ''{oops''
     = Raised TypeError
   \<and> do_POST (scripted_server ''hello'') json_loads (json_dumps no_float_repr)
      ''/v1/chat/completions'' [''Content-Length'' \<mapsto> ''five''] ''{oops''
     = Raised ValueError\<close>
proof -
  have five: \<open>py_int ''five'' = None\<close> by code_simp
  have rd: \<open>rfile_read ''{oops'' 5 = Inr ''{oops''\<close> by (simp add: rfile_read_def)
  from body_errors_propagate
         [where path = "''/v1/chat/completions''" and headers = "[''Content-Length'' \<mapsto> ''5'']"
            and loads = json_loads and rfile = "''{oops''"
            and srv = "scripted_server ''hello''" and dumps = "json_dumps no_float_repr"]
       bad_body bad_length rd
  obtain e where e: \<open>do_POST (scripted_server ''hello'') json_loads (json_dumps no_float_repr)
      ''/v1/chat/completions'' [''Content-Length'' \<mapsto> ''5''] ''{oops'' = Raised e\<close>
    by auto
  have a: \<open>do_POST (scripted_server ''hello'') json_loads (json_dumps no_float_repr)
      ''/v1/chat/completions'' [''Content-Length'' \<mapsto> ''5''] ''{oops'' = Raised JSONDecodeError\<close>
    by (simp add: do_POST_def bad_body bad_length rd)
  have b: \<open>do_POST (scripted_server ''hello'') json_loads (json_dumps no_float_repr)
      ''/v1/chat/completions'' Map.empty ''{oops'' = Raised TypeError\<close>
    by (simp add: do_POST_def)
  have c: \<open>do_POST (scripted_server ''hello'') json_loads (json_dumps no_float_repr)
      ''/v1/chat/completions'' [''Content-Length'' \<mapsto> ''five''] ''{oops'' = Raised ValueError\<close>
    by (simp add: do_POST_def five)
  from e a b c show ?thesis by simp
qed



end
